theory Spec2Isabelle
  imports
    Complex_Main
    "HOL-Library.Finite_Map"
    "HOL-Library.Char_ord"
    "HOL-Library.List_Lexorder"
    "HOL-Library.Log_Nat"
begin

section \<open>JSON documents, Go values and errors\<close>

text \<open>
  A byte slice holding JSON text is represented by the document it spells: an object is
  the list of its members in the order of the text (a name may occur twice), a number is
  the value of its literal, a string is the bytes of its literal with the escapes
  resolved, and \<open>None\<close> stands for bytes that the scanner of \<open>encoding/json\<close> rejects.

  A Go value of type \<open>any\<close> is represented by a tree of the same type: a string by its
  bytes, a number by its value, a map with string keys by its entries.  The Go type that
  carries a number is not part of the model; what \<open>json.Unmarshal\<close> stores is a float64
  and so a number that \<open>float64\<close> below leaves as it is.  \<open>json.Marshal\<close> writes a
  number by a literal that reads back as the same number, for which the model takes the
  number itself.
\<close>

datatype json =
    JNull
  | JBool bool
  | JNumber rat
  | JString string
  | JArray "json list"
  | JObject "(string \<times> json) list"

text \<open>
  Go errors.  \<open>ErrContactNotFound\<close> is the package-level sentinel; every call of
  \<open>errors.New\<close> gives a value of its own, so a server message that happens to read
  "contact not found" is still a different error.  \<open>fmt_Errorf p e\<close> is
  \<open>fmt.Errorf(p + ": %w", e)\<close>.  \<open>SyntaxError\<close> and \<open>UnmarshalTypeError\<close> are the two
  errors of \<open>encoding/json\<close> that the decoders below can return, and \<open>External\<close> is an
  error raised outside this package (transport, reader, a caller's interceptor).
\<close>

datatype error =
    ErrContactNotFound
  | errors_New string
  | fmt_Errorf string error
  | SyntaxError
  | UnmarshalTypeError
  | External string

text \<open>A call returns a value, returns an error, or panics.\<close>

datatype 'a result = Ok 'a | Err error | Panic

text \<open>
  \<open>json.Marshal\<close> writes a Go string as valid UTF-8: a byte that does not begin a
  well-formed sequence is replaced by U+FFFD (the bytes EF BF BD), one byte at a time.
  \<open>json.Unmarshal\<close> does the same to the string it reads from a literal.
  \<open>rune_size\<close> is the length of the well-formed sequence at the head of a string, 0 when
  there is none; \<open>utf8_from k\<close> copies \<open>k\<close> bytes before it looks for the next sequence.
\<close>

definition byte_in :: "nat \<Rightarrow> nat \<Rightarrow> char \<Rightarrow> bool" where
  "byte_in lo hi c \<longleftrightarrow> lo \<le> of_char c \<and> (of_char c :: nat) \<le> hi"

fun rune_size :: "string \<Rightarrow> nat" where
  "rune_size [] = 0"
| "rune_size (b0 # rest) =
     (if byte_in 0x00 0x7F b0 then 1
      else if byte_in 0xC2 0xDF b0 then
        (case rest of
           b1 # _ \<Rightarrow> if byte_in 0x80 0xBF b1 then 2 else 0
         | _ \<Rightarrow> 0)
      else if byte_in 0xE0 0xEF b0 then
        (case rest of
           b1 # b2 # _ \<Rightarrow>
             if byte_in (if b0 = CHR 0xE0 then 0xA0 else 0x80)
                        (if b0 = CHR 0xED then 0x9F else 0xBF) b1
                \<and> byte_in 0x80 0xBF b2
             then 3 else 0
         | _ \<Rightarrow> 0)
      else if byte_in 0xF0 0xF4 b0 then
        (case rest of
           b1 # b2 # b3 # _ \<Rightarrow>
             if byte_in (if b0 = CHR 0xF0 then 0x90 else 0x80)
                        (if b0 = CHR 0xF4 then 0x8F else 0xBF) b1
                \<and> byte_in 0x80 0xBF b2 \<and> byte_in 0x80 0xBF b3
             then 4 else 0
         | _ \<Rightarrow> 0)
      else 0)"

fun utf8_from :: "nat \<Rightarrow> string \<Rightarrow> string" where
  "utf8_from k [] = []"
| "utf8_from (Suc k) (c # cs) = c # utf8_from k cs"
| "utf8_from 0 (c # cs) =
     (case rune_size (c # cs) of
        0 \<Rightarrow> [CHR 0xEF, CHR 0xBF, CHR 0xBD] @ utf8_from 0 cs
      | Suc k \<Rightarrow> c # utf8_from k cs)"

definition utf8_coerce :: "string \<Rightarrow> string" where
  "utf8_coerce s = utf8_from 0 s"

text \<open>
  \<open>json.Unmarshal\<close> reads a number into an \<open>any\<close> with \<open>strconv.ParseFloat\<close>: the
  result is the float64 nearest to the number, ties to the even mantissa, and an error
  when that is beyond the largest float64.  \<open>float64 x\<close> is the value of that float64:
  with \<open>2 ^ e \<le> \<bar>x\<bar> < 2 ^ (e + 1)\<close>, a multiple \<open>n * 2 ^ q\<close> of the spacing \<open>2 ^ q\<close> of the
  float64s there (\<open>q = e - 52\<close>, and \<open>- 1074\<close> for the subnormal ones).  It reaches
  \<open>2 ^ 1024\<close>, which is no float64, when \<open>x\<close> does or when \<open>x\<close> rounds up to it.
\<close>

definition pow2 :: "int \<Rightarrow> rat" where
  "pow2 e = (if 0 \<le> e then 2 ^ nat e else 1 / 2 ^ nat (- e))"

definition floor_log2 :: "rat \<Rightarrow> int" where
  "floor_log2 a =
    (case quotient_of a of
       (p, q) \<Rightarrow> (let e = bitlen p - bitlen q in if pow2 e \<le> a then e else e - 1))"

definition round_half_even :: "rat \<Rightarrow> int" where
  "round_half_even m =
    (let f = \<lfloor>m\<rfloor>; r = m - of_int f
     in if r < 1 / 2 then f else if 1 / 2 < r then f + 1 else if even f then f else f + 1)"

definition float64 :: "rat \<Rightarrow> rat option" where
  "float64 x =
    (if x = 0 then Some 0
     else
       (let a = \<bar>x\<bar>;
            e = floor_log2 a;
            q = max (e - 52) (- 1074);
            n = round_half_even (a / pow2 q)
        in if 1024 \<le> e \<or> (e = 1023 \<and> n = 2 ^ 53) then None
           else Some (if x < 0 then - (of_int n * pow2 q) else of_int n * pow2 q)))"

text \<open>
  \<open>json.Marshal\<close> of a value of type \<open>any\<close>: every string, a key of a map included, is
  written as valid UTF-8.
\<close>

fun written :: "json \<Rightarrow> json" where
  "written (JString s) = JString (utf8_coerce s)"
| "written (JArray xs) = JArray (map written xs)"
| "written (JObject kvs) = JObject (map (\<lambda>(k, v). (utf8_coerce k, written v)) kvs)"
| "written v = v"

text \<open>
  \<open>json.Unmarshal\<close> of a value of a document into an \<open>any\<close>: every number becomes a
  float64, and a number beyond the range of float64 is a type error (\<open>None\<close>); every
  string, a member name included, is read as valid UTF-8.
\<close>

fun read_value :: "json \<Rightarrow> json option" where
  "read_value (JNumber x) = map_option JNumber (float64 x)"
| "read_value (JString s) = Some (JString (utf8_coerce s))"
| "read_value (JArray xs) = map_option JArray (those (map read_value xs))"
| "read_value (JObject kvs) =
     map_option JObject
       (those (map (\<lambda>(k, v). map_option (Pair (utf8_coerce k)) (read_value v)) kvs))"
| "read_value v = Some v"

text \<open>
  \<open>json.Unmarshal(data, &values)\<close> for \<open>values := map[string]any{}\<close>: members are stored
  in the order of the text, so the last occurrence of a name wins; \<open>null\<close> makes the
  map nil, which reads as the empty map; any other value is a type error, and so is a
  number beyond the range of float64 anywhere in the object.
\<close>

fun json_Unmarshal_map :: "json option \<Rightarrow> error + (string, json) fmap" where
  "json_Unmarshal_map None = Inl SyntaxError"
| "json_Unmarshal_map (Some JNull) = Inr fmempty"
| "json_Unmarshal_map (Some (JObject kvs)) =
     (case read_value (JObject kvs) of
        Some (JObject kvs') \<Rightarrow> Inr (fmap_of_list (rev kvs'))
      | _ \<Rightarrow> Inl UnmarshalTypeError)"
| "json_Unmarshal_map (Some _) = Inl UnmarshalTypeError"

text \<open>
  A Go map as a value of type \<open>any\<close>: its entries by ascending key, the order in which
  \<open>json.Marshal\<close> writes them.
\<close>

definition go_map :: "(string, json) fmap \<Rightarrow> json" where
  "go_map m = JObject (sorted_list_of_fmap m)"

definition json_Marshal_map :: "(string, json) fmap \<Rightarrow> json" where
  "json_Marshal_map m = written (go_map m)"

text \<open>The checked type assertions \<open>v, ok := values[k].(T)\<close>; a missing key gives \<open>nil\<close>.\<close>

fun assert_string :: "json option \<Rightarrow> string option" where
  "assert_string (Some (JString s)) = Some s"
| "assert_string _ = None"

fun assert_bool :: "json option \<Rightarrow> bool option" where
  "assert_bool (Some (JBool b)) = Some b"
| "assert_bool _ = None"

fun assert_map :: "json option \<Rightarrow> (string, json) fmap option" where
  "assert_map (Some (JObject kvs)) = Some (fmap_of_list (rev kvs))"
| "assert_map _ = None"

text \<open>\<open>maps.Copy(dst, src)\<close>; copying from a nil map copies nothing.\<close>

definition maps_Copy :: "(string, 'v) fmap \<Rightarrow> (string, 'v) fmap option \<Rightarrow> (string, 'v) fmap" where
  "maps_Copy dst src = (case src of None \<Rightarrow> dst | Some m \<Rightarrow> dst ++\<^sub>f m)"

section \<open>Arguments of the calls\<close>

text \<open>
  A pointer is an option; a map that may be nil is an option of a finite map.  The
  calls below dereference their argument, which is taken to be non-nil.
\<close>

record ContactIdentifier =
  Email :: "string option"
  UserID :: "string option"

record Event =
  Email :: "string option"
  UserID :: "string option"
  EventName :: string
  ContactProperties :: "(string, json) fmap option"
  EventProperties :: "(string, json) fmap option option"
  MailingLists :: "(string, json) fmap option option"





section \<open>The Contact codec\<close>

record Contact =
  ID :: string
  Email :: string
  FirstName :: "string option"
  LastName :: "string option"
  Source :: "string option"
  Subscribed :: bool
  UserGroup :: "string option"
  UserID :: "string option"
  MailingLists :: "(string, bool) fmap option"
  OptInStatus :: "string option"
  Properties :: "(string, json) fmap option"

text \<open>The zero value \<open>Contact{}\<close>.\<close>

definition Contact_zero :: Contact where
  "Contact_zero = \<lparr> ID = '''', Email = '''', FirstName = None, LastName = None, Source = None,
     Subscribed = False, UserGroup = None, UserID = None, MailingLists = None,
     OptInStatus = None, Properties = None \<rparr>"

text \<open>A \<open>map[string]bool\<close> stored in an \<open>any\<close>.\<close>

definition bool_map_json :: "(string, bool) fmap \<Rightarrow> json" where
  "bool_map_json m = go_map (fmmap JBool m)"

text \<open>
  \<open>Contact.MarshalJSON\<close>: the map \<open>data\<close> that the method builds, and what
  \<open>json.Marshal(data)\<close> writes.  A value of \<open>Properties\<close> is a tree of JSON values here,
  so \<open>json.Marshal\<close> has nothing to reject.
\<close>

definition MarshalJSON_data :: "Contact \<Rightarrow> (string, json) fmap" where
  "MarshalJSON_data c =
    (let data = fmap_of_list
           [(''id'', JString (ID c)),
            (''email'', JString (Email c)),
            (''subscribed'', JBool (Subscribed c))];
         data = (case FirstName c of None \<Rightarrow> data
                 | Some v \<Rightarrow> fmupd ''firstName'' (JString v) data);
         data = (case LastName c of None \<Rightarrow> data
                 | Some v \<Rightarrow> fmupd ''lastName'' (JString v) data);
         data = (case Source c of None \<Rightarrow> data
                 | Some v \<Rightarrow> fmupd ''source'' (JString v) data);
         data = (case UserGroup c of None \<Rightarrow> data
                 | Some v \<Rightarrow> fmupd ''userGroup'' (JString v) data);
         data = (case UserID c of None \<Rightarrow> data
                 | Some v \<Rightarrow> fmupd ''userId'' (JString v) data);
         data = (case MailingLists c of None \<Rightarrow> data
                 | Some m \<Rightarrow> fmupd ''mailingLists'' (bool_map_json m) data);
         data = (case OptInStatus c of None \<Rightarrow> data
                 | Some v \<Rightarrow> fmupd ''optInStatus'' (JString v) data)
     in maps_Copy data (Properties c))"

definition MarshalJSON :: "Contact \<Rightarrow> json" where
  "MarshalJSON c = json_Marshal_map (MarshalJSON_data c)"

text \<open>
  The loop \<open>for k, v := range mailingLists { c.MailingLists[k] = v.(bool) }\<close>.  The
  assertion is the unchecked form, which panics on a value that is not a boolean.  Go
  leaves the order of the iteration open; the entries are taken by ascending key here.
\<close>

fun range_mailingLists ::
  "(string \<times> json) list \<Rightarrow> (string, bool) fmap \<Rightarrow> unit result \<times> (string, bool) fmap" where
  "range_mailingLists [] m = (Ok (), m)"
| "range_mailingLists ((k, v) # kvs) m =
     (case v of JBool b \<Rightarrow> range_mailingLists kvs (fmupd k b m) | _ \<Rightarrow> (Panic, m))"

text \<open>
  \<open>Contact.UnmarshalJSON\<close> works on its receiver and on the map \<open>values\<close> in place:
  the model threads both through the steps and returns the receiver as the call leaves
  it, next to what the call returns.

  The block \<open>if v, ok := values[key].(string); ok { c.F = &v; delete(values, key) }\<close>,
  which the source writes once for each optional string attribute:
\<close>

definition optional_string ::
  "string \<Rightarrow> (string \<Rightarrow> Contact \<Rightarrow> Contact) \<Rightarrow> Contact \<times> (string, json) fmap
     \<Rightarrow> Contact \<times> (string, json) fmap" where
  "optional_string key assign s =
    (case s of (c, values) \<Rightarrow>
       (case assert_string (fmlookup values key) of
          Some v \<Rightarrow> (assign v c, fmdrop key values)
        | None \<Rightarrow> (c, values)))"

text \<open>The block for \<open>mailingLists\<close>; a panic in the loop ends the call there.\<close>

definition mailingLists_block ::
  "Contact \<times> (string, json) fmap \<Rightarrow> unit result \<times> Contact \<times> (string, json) fmap" where
  "mailingLists_block s =
    (case s of (c, values) \<Rightarrow>
       (case assert_map (fmlookup values ''mailingLists'') of
          Some mailingLists \<Rightarrow>
            (case range_mailingLists (sorted_list_of_fmap mailingLists) fmempty of
               (Ok _, m) \<Rightarrow> (Ok (), c\<lparr>MailingLists := Some m\<rparr>, fmdrop ''mailingLists'' values)
             | (r, m) \<Rightarrow> (r, c\<lparr>MailingLists := Some m\<rparr>, values))
        | None \<Rightarrow> (Ok (), c, values)))"

text \<open>The part of \<open>UnmarshalJSON\<close> after the three required attributes.\<close>

definition UnmarshalJSON_optional ::
  "Contact \<Rightarrow> (string, json) fmap \<Rightarrow> unit result \<times> Contact" where
  "UnmarshalJSON_optional c values =
    (let s = optional_string ''firstName'' (\<lambda>v c. c\<lparr>FirstName := Some v\<rparr>) (c, values);
         s = optional_string ''lastName'' (\<lambda>v c. c\<lparr>LastName := Some v\<rparr>) s;
         s = optional_string ''source'' (\<lambda>v c. c\<lparr>Source := Some v\<rparr>) s;
         s = optional_string ''userGroup'' (\<lambda>v c. c\<lparr>UserGroup := Some v\<rparr>) s;
         s = optional_string ''userId'' (\<lambda>v c. c\<lparr>UserID := Some v\<rparr>) s
     in case mailingLists_block s of
          (Ok _, s) \<Rightarrow>
            (case optional_string ''optInStatus'' (\<lambda>v c. c\<lparr>OptInStatus := Some v\<rparr>) s of
               (c, values) \<Rightarrow>
                 (Ok (), c\<lparr>Properties := Some (maps_Copy fmempty (Some values))\<rparr>))
        | (r, c, values) \<Rightarrow> (r, c))"

definition UnmarshalJSON :: "Contact \<Rightarrow> json option \<Rightarrow> unit result \<times> Contact" where
  "UnmarshalJSON c data =
    (case json_Unmarshal_map data of
       Inl err \<Rightarrow> (Err err, c)
     | Inr values \<Rightarrow>
        (case assert_string (fmlookup values ''id'') of
           None \<Rightarrow> (Err (errors_New ''missing or invalid 'id' field''), c)
         | Some id' \<Rightarrow>
            (let c = c\<lparr>ID := id'\<rparr>; values = fmdrop ''id'' values
             in case assert_string (fmlookup values ''email'') of
                  None \<Rightarrow> (Err (errors_New ''missing or invalid 'email' field''), c)
                | Some email \<Rightarrow>
                   (let c = c\<lparr>Email := email\<rparr>; values = fmdrop ''email'' values
                    in case assert_bool (fmlookup values ''subscribed'') of
                         None \<Rightarrow> (Err (errors_New ''missing or invalid 'subscribed' field''), c)
                       | Some subscribed \<Rightarrow>
                           UnmarshalJSON_optional (c\<lparr>Subscribed := subscribed\<rparr>)
                             (fmdrop ''subscribed'' values)))))"

section \<open>Library functions the client calls\<close>

text \<open>
  Parsing and resolving URLs is the work of \<open>net/url\<close>, and \<open>http.DefaultClient\<close> is the
  network; the model takes them as given.  A URL is represented by its string form.
\<close>

record stdlib =
  url_Parse :: "string \<Rightarrow> error + string"
  URL_Parse :: "string \<Rightarrow> string \<Rightarrow> error + string"




text \<open>
  \<open>url.Values\<close> with \<open>Add\<close> and \<open>Encode\<close>: keys in ascending order, keys and values
  escaped by \<open>url.QueryEscape\<close>, which keeps letters, digits and \<open>-_.~\<close>, writes a space
  as \<open>+\<close> and every other byte as \<open>%XX\<close>.
\<close>

type_synonym Values = "(string, string list) fmap"

definition Values_Add :: "string \<Rightarrow> string \<Rightarrow> Values \<Rightarrow> Values" where
  "Values_Add key v m =
     fmupd key ((case fmlookup m key of None \<Rightarrow> [] | Some vs \<Rightarrow> vs) @ [v]) m"

definition unreserved :: "char \<Rightarrow> bool" where
  "unreserved c \<longleftrightarrow>
     c \<in> set ''ABCDEFGHIJKLMNOPQRSTUVWXYZabcdefghijklmnopqrstuvwxyz0123456789-_.~''"

fun QueryEscape :: "string \<Rightarrow> string" where
  "QueryEscape [] = []"
| "QueryEscape (c # cs) =
     (if unreserved c then [c]
      else if c = CHR '' '' then ''+''
      else [CHR ''%'', ''0123456789ABCDEF'' ! (of_char c div 16),
            ''0123456789ABCDEF'' ! (of_char c mod 16)]) @ QueryEscape cs"

fun join_amp :: "string list \<Rightarrow> string" where
  "join_amp [] = []"
| "join_amp [x] = x"
| "join_amp (x # y # zs) = x @ ''&'' @ join_amp (y # zs)"

definition Values_Encode :: "Values \<Rightarrow> string" where
  "Values_Encode m =
     join_amp (concat (map (\<lambda>(k, vs). map (\<lambda>v. QueryEscape k @ ''='' @ QueryEscape v) vs)
       (sorted_list_of_fmap m)))"

section \<open>Requests, responses and the client\<close>

text \<open>
  A request as far as this package reads and writes it.  \<open>Header.Set\<close> replaces the
  values stored under a key; the two keys the package sets are already in canonical
  form.
\<close>

record Request =
  Method :: string
  URL :: string
  RawQuery :: string
  Header :: "(string, string list) fmap"
  Body :: "json option"


text \<open>
  \<open>http.NewRequestWithContext\<close>: an empty method means GET, the method has to consist
  of token characters, and the URL is parsed.  The context is taken to be non-nil.
\<close>

definition validMethod :: "string \<Rightarrow> bool" where
  "validMethod method \<longleftrightarrow> method \<noteq> [] \<and>
     (\<forall>c \<in> set method. c \<in> set
        ''!#$%&*+-.^_`|~0123456789ABCDEFGHIJKLMNOPQRSTUVWXYZabcdefghijklmnopqrstuvwxyz''
        \<or> c = CHR 0x27)"

definition http_NewRequestWithContext ::
  "stdlib \<Rightarrow> string \<Rightarrow> string \<Rightarrow> json option \<Rightarrow> error + Request" where
  "http_NewRequestWithContext lib method url body =
    (let method = (if method = '''' then ''GET'' else method)
     in if \<not> validMethod method then Inl (External ''net/http: invalid method'')
        else case url_Parse lib url of
               Inl err \<Rightarrow> Inl err
             | Inr u \<Rightarrow> Inr \<lparr> Method = method, URL = u, RawQuery = '''', Header = fmempty,
                               Body = body \<rparr>)"

text \<open>
  The body of a response: its text, and the JSON document the text spells (\<open>None\<close> when
  it is not valid JSON).  Reading the body may fail.
\<close>

record body =
  content :: string
  document :: "json option"

record Response =
  StatusCode :: int
  Body :: "error + body"

type_synonym HTTPClient = "Request \<Rightarrow> error + Response"

text \<open>
  An interceptor changes the request in place or returns an error; the model returns
  the changed request.
\<close>

type_synonym RequestInterceptor = "Request \<Rightarrow> error + Request"

record clientConfig =
  apiURL :: string
  apiKey :: string
  httpClient :: HTTPClient
  requestInterceptors :: "RequestInterceptor list"

record Client =
  apiURL :: string
  httpClient :: HTTPClient
  requestInterceptors :: "RequestInterceptor list"

type_synonym ClientOption = "clientConfig \<Rightarrow> clientConfig"

definition defaultURL :: string where
  "defaultURL = ''https://app.loops.so/api/v1/''"

definition WithURL :: "string \<Rightarrow> ClientOption" where
  "WithURL u = (\<lambda>c. c\<lparr>clientConfig.apiURL := u\<rparr>)"


definition WithHTTPClient :: "HTTPClient \<Rightarrow> ClientOption" where
  "WithHTTPClient h = (\<lambda>c. c\<lparr>clientConfig.httpClient := h\<rparr>)"






text \<open>
  What the calls below do to the outside world, in order: a request comes out of
  \<open>http.NewRequestWithContext\<close>, a request is handed to \<open>httpClient.Do\<close>.
\<close>

datatype event = NewRequest Request | Do Request

text \<open>The loop over \<open>c.requestInterceptors\<close>: in list order, stopping at the first error.\<close>

fun run_interceptors :: "RequestInterceptor list \<Rightarrow> Request \<Rightarrow> error + Request" where
  "run_interceptors [] req = Inr req"
| "run_interceptors (interceptor # rest) req =
     (case interceptor req of
        Inl err \<Rightarrow> Inl err
      | Inr req' \<Rightarrow> run_interceptors rest req')"

text \<open>
  \<open>newRequestWithBody[T]\<close>; \<open>marshal\<close> is \<open>json.Marshal\<close> at type \<open>T\<close>.  Indexing an
  empty path panics.
\<close>

definition newRequestWithBody ::
  "stdlib \<Rightarrow> ('a \<Rightarrow> error + json) \<Rightarrow> Client \<Rightarrow> string \<Rightarrow> string \<Rightarrow> 'a option
     \<Rightarrow> Request result \<times> event list" where
  "newRequestWithBody lib marshal c method path message =
    (case path of
       [] \<Rightarrow> (Panic, [])
     | p # _ \<Rightarrow>
        (let path = (if p = CHR ''/'' then ''.'' @ path else path)
         in case URL_Parse lib (Client.apiURL c) path of
              Inl err \<Rightarrow> (Err err, [])
            | Inr queryURL \<Rightarrow>
               (case (case message of
                        None \<Rightarrow> Inr None
                      | Some m \<Rightarrow>
                         (case marshal m of
                            Inl err \<Rightarrow> Inl (fmt_Errorf ''failed to marshal message'' err)
                          | Inr buf \<Rightarrow> Inr (Some buf))) of
                  Inl err \<Rightarrow> (Err err, [])
                | Inr body \<Rightarrow>
                   (case http_NewRequestWithContext lib method queryURL body of
                      Inl err \<Rightarrow> (Err err, [])
                    | Inr req \<Rightarrow>
                       (case run_interceptors (Client.requestInterceptors c) req of
                          Inl err \<Rightarrow> (Err err, [NewRequest req])
                        | Inr req' \<Rightarrow> (Ok req', [NewRequest req]))))))"

definition newGetRequestWithQueryParams ::
  "stdlib \<Rightarrow> Client \<Rightarrow> string \<Rightarrow> Values option \<Rightarrow> Request result \<times> event list" where
  "newGetRequestWithQueryParams lib c path queryParams =
    (case newRequestWithBody lib (\<lambda>m. Inr (MarshalJSON m)) c ''GET'' path None of
       (Ok req, evs) \<Rightarrow>
         (case queryParams of
            Some params \<Rightarrow> (Ok (req\<lparr>RawQuery := Values_Encode params\<rparr>), evs)
          | None \<Rightarrow> (Ok req, evs))
     | (r, evs) \<Rightarrow> (r, evs))"

section \<open>Decoding responses\<close>

text \<open>
  \<open>encoding/json\<close> matches a member name with a struct field exactly or, failing that,
  after folding both: ASCII letters to upper case, and the two non-ASCII runes whose
  fold is an ASCII letter (U+017F to S, U+212A to K).  The field names here are ASCII,
  so equality of the folded names decides the match.
\<close>

definition fold_ascii :: "char \<Rightarrow> char" where
  "fold_ascii c =
     (case map_of (zip ''abcdefghijklmnopqrstuvwxyz'' ''ABCDEFGHIJKLMNOPQRSTUVWXYZ'') c of
        Some u \<Rightarrow> u
      | None \<Rightarrow> c)"

fun foldName :: "string \<Rightarrow> string" where
  "foldName (c1 # c2 # c3 # cs) =
     (if [c1, c2, c3] = [CHR 0xE2, CHR 0x84, CHR 0xAA] then CHR ''K'' # foldName cs
      else if [c1, c2] = [CHR 0xC5, CHR 0xBF] then CHR ''S'' # foldName (c3 # cs)
      else fold_ascii c1 # foldName (c2 # c3 # cs))"
| "foldName [c1, c2] =
     (if [c1, c2] = [CHR 0xC5, CHR 0xBF] then ''S'' else fold_ascii c1 # foldName [c2])"
| "foldName [c] = [fold_ascii c]"
| "foldName [] = []"

definition name_matches :: "string \<Rightarrow> string \<Rightarrow> bool" where
  "name_matches key field \<longleftrightarrow> foldName key = foldName field"

text \<open>The decoder keeps the first type error it meets and goes on.\<close>

definition saveError :: "error option \<Rightarrow> error \<Rightarrow> error option" where
  "saveError saved err = (case saved of None \<Rightarrow> Some err | Some _ \<Rightarrow> saved)"

record errorResponse =
  Error :: string

record MessageResponse =
  Success :: bool
  Message :: string

definition errorResponse_zero :: errorResponse where
  "errorResponse_zero = \<lparr> Error = '''' \<rparr>"

definition MessageResponse_zero :: MessageResponse where
  "MessageResponse_zero = \<lparr> Success = False, Message = '''' \<rparr>"

text \<open>
  Decoding the members of an object into a struct: a string field takes a string, read
  as valid UTF-8, is left alone by \<open>null\<close>, and records a type error for anything else;
  likewise a bool field; a member that matches no field is skipped.  A member name is
  matched as it is read, too.
\<close>

fun errorResponse_members ::
  "(string \<times> json) list \<Rightarrow> errorResponse \<Rightarrow> error option \<Rightarrow> errorResponse \<times> error option" where
  "errorResponse_members [] r saved = (r, saved)"
| "errorResponse_members ((k, v) # kvs) r saved =
     (if name_matches (utf8_coerce k) ''error'' then
        (case v of
           JString s \<Rightarrow> errorResponse_members kvs (r\<lparr>Error := utf8_coerce s\<rparr>) saved
         | JNull \<Rightarrow> errorResponse_members kvs r saved
         | _ \<Rightarrow> errorResponse_members kvs r (saveError saved UnmarshalTypeError))
      else errorResponse_members kvs r saved)"

fun MessageResponse_members ::
  "(string \<times> json) list \<Rightarrow> MessageResponse \<Rightarrow> error option
     \<Rightarrow> MessageResponse \<times> error option" where
  "MessageResponse_members [] r saved = (r, saved)"
| "MessageResponse_members ((k, v) # kvs) r saved =
     (if name_matches (utf8_coerce k) ''success'' then
        (case v of
           JBool b \<Rightarrow> MessageResponse_members kvs (r\<lparr>Success := b\<rparr>) saved
         | JNull \<Rightarrow> MessageResponse_members kvs r saved
         | _ \<Rightarrow> MessageResponse_members kvs r (saveError saved UnmarshalTypeError))
      else if name_matches (utf8_coerce k) ''message'' then
        (case v of
           JString s \<Rightarrow> MessageResponse_members kvs (r\<lparr>Message := utf8_coerce s\<rparr>) saved
         | JNull \<Rightarrow> MessageResponse_members kvs r saved
         | _ \<Rightarrow> MessageResponse_members kvs r (saveError saved UnmarshalTypeError))
      else MessageResponse_members kvs r saved)"

text \<open>
  \<open>json.Unmarshal(data, &p)\<close> for a pointer \<open>p\<close> to a struct: the error returned and the
  pointer afterwards.  \<open>null\<close> sets the pointer to nil; an object fills the struct the
  pointer refers to (a new one if the pointer was nil).
\<close>

definition json_Unmarshal_ptr ::
  "((string \<times> json) list \<Rightarrow> 'a \<Rightarrow> error option \<Rightarrow> 'a \<times> error option) \<Rightarrow> 'a
     \<Rightarrow> json option \<Rightarrow> 'a option \<Rightarrow> error option \<times> 'a option" where
  "json_Unmarshal_ptr members zero data p =
    (case data of
       None \<Rightarrow> (Some SyntaxError, p)
     | Some JNull \<Rightarrow> (None, None)
     | Some (JObject kvs) \<Rightarrow>
         (case members kvs (case p of None \<Rightarrow> zero | Some r \<Rightarrow> r) None of
            (r, saved) \<Rightarrow> (saved, Some r))
     | Some _ \<Rightarrow> (Some UnmarshalTypeError, Some (case p of None \<Rightarrow> zero | Some r \<Rightarrow> r)))"

text \<open>\<open>json.Unmarshal(body, &response)\<close> for \<open>var response *MessageResponse\<close>.\<close>

definition json_Unmarshal_MessageResponse :: "json option \<Rightarrow> MessageResponse option result" where
  "json_Unmarshal_MessageResponse data =
    (case json_Unmarshal_ptr MessageResponse_members MessageResponse_zero data None of
       (None, p) \<Rightarrow> Ok p
     | (Some err, _) \<Rightarrow> Err err)"

text \<open>
  \<open>json.Unmarshal(body, &response)\<close> for \<open>var response []*Contact\<close>: each element that
  is not \<open>null\<close> gets a new \<open>Contact\<close> and goes through \<open>Contact.UnmarshalJSON\<close>, whose
  error, or panic, ends the decoding.
\<close>

fun json_Unmarshal_Contact_elements :: "json list \<Rightarrow> Contact option list result" where
  "json_Unmarshal_Contact_elements [] = Ok []"
| "json_Unmarshal_Contact_elements (j # js) =
     (case (case j of
              JNull \<Rightarrow> Ok None
            | _ \<Rightarrow> (case UnmarshalJSON Contact_zero (Some j) of
                       (Ok _, c) \<Rightarrow> Ok (Some c)
                     | (Err err, _) \<Rightarrow> Err err
                     | (Panic, _) \<Rightarrow> Panic)) of
        Ok c \<Rightarrow>
          (case json_Unmarshal_Contact_elements js of
             Ok cs \<Rightarrow> Ok (c # cs)
           | r \<Rightarrow> r)
      | Err err \<Rightarrow> Err err
      | Panic \<Rightarrow> Panic)"

fun json_Unmarshal_Contacts :: "json option \<Rightarrow> Contact option list result" where
  "json_Unmarshal_Contacts None = Err SyntaxError"
| "json_Unmarshal_Contacts (Some JNull) = Ok []"
| "json_Unmarshal_Contacts (Some (JArray js)) = json_Unmarshal_Contact_elements js"
| "json_Unmarshal_Contacts (Some _) = Err UnmarshalTypeError"

section \<open>Sending a request\<close>

definition URL_String :: "Request \<Rightarrow> string" where
  "URL_String req = URL req @ (if RawQuery req = '''' then '''' else ''?'' @ RawQuery req)"

text \<open>
  The part of \<open>sendRequest\<close> that handles a status of 300 or more: first the body is
  decoded as an \<open>errorResponse\<close>, then, in \<open>sendRequest_message\<close>, as a
  \<open>MessageResponse\<close>.  Both pointers are non-nil before the decoding, and \<open>null\<close> sets
  them to nil.
\<close>

definition sendRequest_message :: "body \<Rightarrow> 'a result" where
  "sendRequest_message body =
    (case json_Unmarshal_ptr MessageResponse_members MessageResponse_zero (document body)
            (Some MessageResponse_zero) of
       (Some err, _) \<Rightarrow> Err (fmt_Errorf ''failed to unmarshal error message'' err)
     | (None, None) \<Rightarrow> Panic
     | (None, Some msg) \<Rightarrow>
         (if Message msg = '''' then Err (errors_New (content body))
          else Err (errors_New (Message msg))))"

definition sendRequest_failure :: "body \<Rightarrow> 'a result" where
  "sendRequest_failure body =
    (case json_Unmarshal_ptr errorResponse_members errorResponse_zero (document body)
            (Some errorResponse_zero) of
       (None, None) \<Rightarrow> Panic
     | (None, Some errorMsg) \<Rightarrow>
         (if Error errorMsg \<noteq> '''' then Err (errors_New (Error errorMsg))
          else sendRequest_message body)
     | (Some err, _) \<Rightarrow> sendRequest_message body)"

text \<open>\<open>sendRequest[T]\<close>; \<open>unmarshal\<close> is \<open>json.Unmarshal\<close> into a zero \<open>T\<close>.\<close>

definition sendRequest ::
  "(json option \<Rightarrow> 'a result) \<Rightarrow> Client \<Rightarrow> Request \<Rightarrow> 'a result \<times> event list" where
  "sendRequest unmarshal c req =
    (case Client.httpClient c req of
       Inl err \<Rightarrow> (Err (fmt_Errorf (''failed to send request '' @ URL_String req) err), [Do req])
     | Inr resp \<Rightarrow>
        (case Response.Body resp of
           Inl err \<Rightarrow> (Err (fmt_Errorf ''failed to read response body'' err), [Do req])
         | Inr body \<Rightarrow>
            (if StatusCode resp < 300 then
               (case unmarshal (document body) of
                  Err err \<Rightarrow> (Err (fmt_Errorf ''failed to unmarshal response body'' err), [Do req])
                | r \<Rightarrow> (r, [Do req]))
             else (sendRequest_failure body, [Do req]))))"

section \<open>The calls of the client\<close>

text \<open>
  Each call returns its result and the events it caused.  A call that returns only an
  \<open>error\<close> in Go returns \<open>Ok ()\<close> for \<open>nil\<close>.
\<close>

definition FindContact ::
  "stdlib \<Rightarrow> Client \<Rightarrow> ContactIdentifier \<Rightarrow> Contact option result \<times> event list" where
  "FindContact lib c contact =
    (if ContactIdentifier.Email contact = None \<and> ContactIdentifier.UserID contact = None then
       (Err (errors_New ''contact identifier must contain either an email or a userId''), [])
     else if ContactIdentifier.Email contact \<noteq> None \<and> ContactIdentifier.UserID contact \<noteq> None then
       (Err (errors_New
          ''contact identifier must contain either an email or a userId, but not both''), [])
     else
       (let params = fmempty;
            params = (case ContactIdentifier.Email contact of
                        Some v \<Rightarrow> Values_Add ''email'' v params | None \<Rightarrow> params);
            params = (case ContactIdentifier.UserID contact of
                        Some v \<Rightarrow> Values_Add ''userId'' v params | None \<Rightarrow> params)
        in case newGetRequestWithQueryParams lib c ''/contacts/find'' (Some params) of
             (Ok req, evs) \<Rightarrow>
               (case sendRequest json_Unmarshal_Contacts c req of
                  (Ok contacts, evs') \<Rightarrow>
                    (if length contacts = 0 then (Err ErrContactNotFound, evs @ evs')
                     else (Ok (contacts ! 0), evs @ evs'))
                | (Err err, evs') \<Rightarrow> (Err err, evs @ evs')
                | (Panic, evs') \<Rightarrow> (Panic, evs @ evs'))
           | (Err err, evs) \<Rightarrow> (Err err, evs)
           | (Panic, evs) \<Rightarrow> (Panic, evs)))"





section \<open>Notions used to state the properties\<close>

text \<open>
  The extension mapping of a contact as a reader sees it: a nil map reads as the empty
  map.
\<close>

definition properties_of :: "Contact \<Rightarrow> (string, json) fmap" where
  "properties_of c = maps_Copy fmempty (Properties c)"

text \<open>The JSON names of the known attributes.\<close>

definition known_keys :: "string set" where
  "known_keys = {''id'', ''email'', ''subscribed'', ''firstName'', ''lastName'', ''source'',
     ''userGroup'', ''userId'', ''mailingLists'', ''optInStatus''}"

text \<open>
  The value an encoded document binds to a name (\<open>None\<close> when the document is not an
  object or has no such member); as in every decoder of the library, the last occurrence
  of a name counts.
\<close>

fun member :: "json \<Rightarrow> string \<Rightarrow> json option" where
  "member (JObject kvs) k = map_of (rev kvs) k"
| "member _ k = None"

text \<open>The members of an encoded object.\<close>

fun members :: "json \<Rightarrow> (string \<times> json) list" where
  "members (JObject kvs) = kvs"
| "members _ = []"

text \<open>
  What \<open>MarshalJSON\<close> has stored under a name before it copies the extension mapping:
  the assignments to \<open>data\<close>, latest first.
\<close>

definition known_data :: "Contact \<Rightarrow> string \<Rightarrow> json option" where
  "known_data c k =
    (if k = ''optInStatus'' \<and> OptInStatus c \<noteq> None then map_option JString (OptInStatus c)
     else if k = ''mailingLists'' \<and> MailingLists c \<noteq> None
       then map_option bool_map_json (MailingLists c)
     else if k = ''userId'' \<and> UserID c \<noteq> None then map_option JString (UserID c)
     else if k = ''userGroup'' \<and> UserGroup c \<noteq> None then map_option JString (UserGroup c)
     else if k = ''source'' \<and> Source c \<noteq> None then map_option JString (Source c)
     else if k = ''lastName'' \<and> LastName c \<noteq> None then map_option JString (LastName c)
     else if k = ''firstName'' \<and> FirstName c \<noteq> None then map_option JString (FirstName c)
     else if k = ''id'' then Some (JString (ID c))
     else if k = ''email'' then Some (JString (Email c))
     else if k = ''subscribed'' then Some (JBool (Subscribed c))
     else None)"

text \<open>The optional attributes of type \<open>*string\<close>, by their JSON names.\<close>

definition optional_string_keys :: "string set" where
  "optional_string_keys =
     {''firstName'', ''lastName'', ''source'', ''userGroup'', ''userId'', ''optInStatus''}"

definition optional_attribute :: "string \<Rightarrow> Contact \<Rightarrow> string option" where
  "optional_attribute k c =
    (if k = ''firstName'' then FirstName c
     else if k = ''lastName'' then LastName c
     else if k = ''source'' then Source c
     else if k = ''userGroup'' then UserGroup c
     else if k = ''userId'' then UserID c
     else if k = ''optInStatus'' then OptInStatus c
     else None)"

text \<open>
  A string is valid UTF-8 when \<open>json.Marshal\<close> writes it as it is.  A JSON-safe scalar
  is a value that comes back from the encoding as it went in: \<open>null\<close>, a boolean, a
  number that is a float64, a string that is valid UTF-8.
\<close>

definition valid_utf8 :: "string \<Rightarrow> bool" where
  "valid_utf8 s \<longleftrightarrow> utf8_coerce s = s"

fun json_safe_scalar :: "json \<Rightarrow> bool" where
  "json_safe_scalar JNull = True"
| "json_safe_scalar (JBool b) = True"
| "json_safe_scalar (JNumber x) = (float64 x = Some x)"
| "json_safe_scalar (JString s) = valid_utf8 s"
| "json_safe_scalar _ = False"

text \<open>The known attributes of a contact hold valid UTF-8, the names of its lists too.\<close>

definition valid_utf8_attribute :: "string option \<Rightarrow> bool" where
  "valid_utf8_attribute x = (case x of None \<Rightarrow> True | Some s \<Rightarrow> valid_utf8 s)"

definition Contact_valid_utf8 :: "Contact \<Rightarrow> bool" where
  "Contact_valid_utf8 c \<longleftrightarrow>
     valid_utf8 (ID c) \<and> valid_utf8 (Email c) \<and>
     valid_utf8_attribute (FirstName c) \<and> valid_utf8_attribute (LastName c) \<and>
     valid_utf8_attribute (Source c) \<and> valid_utf8_attribute (UserGroup c) \<and>
     valid_utf8_attribute (UserID c) \<and> valid_utf8_attribute (OptInStatus c) \<and>
     (case MailingLists c of None \<Rightarrow> True | Some m \<Rightarrow> fmpred (\<lambda>k b. valid_utf8 k) m)"

text \<open>
  The error that claim C2, as amended, expects for a failure status.  The body decodes
  as an \<open>errorResponse\<close>, or as a \<open>MessageResponse\<close>, when it is a JSON object and the
  decoder reports no error.
\<close>

definition decodes_errorResponse :: "json option \<Rightarrow> errorResponse option" where
  "decodes_errorResponse data =
    (case data of
       Some (JObject kvs) \<Rightarrow>
         (case errorResponse_members kvs errorResponse_zero None of
            (r, None) \<Rightarrow> Some r
          | (r, Some err) \<Rightarrow> None)
     | _ \<Rightarrow> None)"

definition decodes_MessageResponse :: "json option \<Rightarrow> error + MessageResponse" where
  "decodes_MessageResponse data =
    (case data of
       None \<Rightarrow> Inl SyntaxError
     | Some (JObject kvs) \<Rightarrow>
         (case MessageResponse_members kvs MessageResponse_zero None of
            (r, None) \<Rightarrow> Inr r
          | (r, Some err) \<Rightarrow> Inl err)
     | Some _ \<Rightarrow> Inl UnmarshalTypeError)"

definition message_or_raw :: "body \<Rightarrow> error" where
  "message_or_raw b =
    (case decodes_MessageResponse (document b) of
       Inl err \<Rightarrow> fmt_Errorf ''failed to unmarshal error message'' err
     | Inr m \<Rightarrow> if Message m \<noteq> '''' then errors_New (Message m) else errors_New (content b))"

definition normalized_error :: "body \<Rightarrow> error" where
  "normalized_error b =
    (case decodes_errorResponse (document b) of
       Some e \<Rightarrow> if Error e \<noteq> '''' then errors_New (Error e) else message_or_raw b
     | None \<Rightarrow> message_or_raw b)"


text \<open>
  For the examples: a library whose URL functions accept every string and resolve a
  reference \<open>./path\<close> by appending \<open>path\<close> to the base, a transport that answers every
  request with the same response (as the replayed recordings of the tests do), and a
  request.
\<close>

definition example_stdlib :: stdlib where
  "example_stdlib = \<lparr> url_Parse = Inr, URL_Parse = (\<lambda>base ref. Inr (base @ drop 2 ref)) \<rparr>"

definition replay :: "Response \<Rightarrow> HTTPClient" where
  "replay resp = (\<lambda>req. Inr resp)"

definition example_request :: Request where
  "example_request = \<lparr> Method = ''GET'', URL = ''https://app.loops.so/api/v1/api-key'',
     RawQuery = '''', Header = fmempty, Request.Body = None \<rparr>"

section \<open>Finite maps and their sorted member lists\<close>

lemma map_of_rev_distinct:
  assumes "distinct (map fst xs)"
  shows "map_of (rev xs) = map_of xs"
proof -
  have "distinct (map fst (rev xs))" using assms by (simp add: rev_map[symmetric])
  then show ?thesis using assms map_of_inject_set[of "rev xs" xs] by simp
qed

lemma map_of_unique:
  assumes "(a, b) \<in> set xs" and "\<And>b'. (a, b') \<in> set xs \<Longrightarrow> b' = b"
  shows "map_of xs a = Some b"
proof (cases "map_of xs a")
  case None
  then have "a \<notin> fst ` set xs" by (simp add: map_of_eq_None_iff)
  then show ?thesis using assms(1) by force
next
  case (Some b')
  then have "(a, b') \<in> set xs" by (rule map_of_SomeD)
  then show ?thesis using assms(2) Some by simp
qed

lemma distinct_sorted_list_of_fmap: "distinct (map fst (sorted_list_of_fmap m))"
  by (simp add: sorted_list_of_fmap_def comp_def sorted_list_of_fset.rep_eq)

lemma sorted_list_of_fmap_member:
  "(k, v) \<in> set (sorted_list_of_fmap m) \<longleftrightarrow> fmlookup m k = Some v"
  using map_of_eq_Some_iff[OF distinct_sorted_list_of_fmap, of m k v] by simp

lemma fmap_of_list_rev_sorted: "fmap_of_list (rev (sorted_list_of_fmap m)) = m"
  by (rule fmap_ext) (simp add: fmlookup_of_list map_of_rev_distinct distinct_sorted_list_of_fmap)

lemma sorted_list_of_fmap_fmmap:
  "sorted_list_of_fmap (fmmap f m) = map (\<lambda>(k, v). (k, f v)) (sorted_list_of_fmap m)"
  by (auto simp: sorted_list_of_fmap_def fmlookup_dom_iff)

lemma range_mailingLists_bools:
  "range_mailingLists (map (\<lambda>(k, b). (k, JBool b)) xs) m = (Ok (), m ++\<^sub>f fmap_of_list (rev xs))"
proof (induction xs arbitrary: m)
  case Nil
  then show ?case by simp
next
  case (Cons x xs)
  obtain k b where x: "x = (k, b)" by (cases x)
  have "fmupd k b m ++\<^sub>f fmap_of_list (rev xs) = m ++\<^sub>f fmap_of_list (rev xs @ [(k, b)])"
    by (rule fmap_ext) (auto simp: fmlookup_of_list fmlookup_dom_iff map_add_def split: option.splits)
  then show ?case using Cons x by simp
qed

lemma range_mailingLists_roundtrip:
  "range_mailingLists (sorted_list_of_fmap (fmmap JBool m)) fmempty = (Ok (), m)"
  by (simp add: sorted_list_of_fmap_fmmap range_mailingLists_bools fmap_of_list_rev_sorted)

lemma fmlookup_case_upd:
  "fmlookup (case x of None \<Rightarrow> d | Some v \<Rightarrow> fmupd k (f v) d) k' =
     (if k' = k \<and> x \<noteq> None then map_option f x else fmlookup d k')"
  by (cases x) auto

section \<open>Strings and values that the library reads and writes as they are\<close>

lemma rune_size_ascii: "byte_in 0x00 0x7F c \<Longrightarrow> rune_size (c # cs) = 1"
  by simp

lemma utf8_coerce_ascii:
  assumes "\<forall>b \<in> set s. byte_in 0x00 0x7F b"
  shows "utf8_coerce s = s"
  using assms unfolding utf8_coerce_def by (induction s) simp_all

text \<open>Only an ASCII string is written as that ASCII string.\<close>

lemma utf8_coerce_eq_ascii:
  assumes "\<forall>b \<in> set s. byte_in 0x00 0x7F b" and "utf8_coerce s' = s"
  shows "s' = s"
  using assms unfolding utf8_coerce_def
proof (induction s' arbitrary: s)
  case Nil
  then show ?case by simp
next
  case (Cons c cs)
  show ?case
  proof (cases "rune_size (c # cs)")
    case 0
    then have "s = [CHR 0xEF, CHR 0xBF, CHR 0xBD] @ utf8_from 0 cs"
      using Cons.prems(2) by simp
    then have "byte_in 0x00 0x7F (CHR 0xEF)" using Cons.prems(1) by simp
    then show ?thesis by (simp add: byte_in_def)
  next
    case (Suc k)
    then have s: "s = c # utf8_from k cs" using Cons.prems(2) by simp
    then have "byte_in 0x00 0x7F c" using Cons.prems(1) by simp
    then have "rune_size (c # cs) = 1" by simp
    then have k: "k = 0" using Suc by simp
    have "cs = utf8_from 0 cs"
      using Cons.IH[of "utf8_from 0 cs"] Cons.prems(1) s k by simp
    then show ?thesis using s k by simp
  qed
qed

lemma known_keys_ascii: "k \<in> known_keys \<Longrightarrow> \<forall>b \<in> set k. byte_in 0x00 0x7F b"
  by (auto simp: known_keys_def byte_in_def)

lemma those_map_Some:
  "(\<And>x. x \<in> set xs \<Longrightarrow> f x = Some x) \<Longrightarrow> those (map f xs) = Some xs"
  by (induction xs) simp_all

lemma written_object_fixed:
  assumes "\<And>k v. (k, v) \<in> set kvs \<Longrightarrow> utf8_coerce k = k \<and> written v = v"
  shows "written (JObject kvs) = JObject kvs"
proof -
  have "map (\<lambda>(k, v). (utf8_coerce k, written v)) kvs = kvs"
    using assms by (intro map_idI) auto
  then show ?thesis by simp
qed

lemma read_object_fixed:
  assumes "\<And>k v. (k, v) \<in> set kvs \<Longrightarrow> utf8_coerce k = k \<and> read_value v = Some v"
  shows "read_value (JObject kvs) = Some (JObject kvs)"
proof -
  have "those (map (\<lambda>(k, v). map_option (Pair (utf8_coerce k)) (read_value v)) kvs) = Some kvs"
    using assms by (intro those_map_Some) auto
  then show ?thesis by simp
qed

lemma json_safe_scalar_fixed:
  "json_safe_scalar v \<Longrightarrow> written v = v \<and> read_value v = Some v"
  by (cases v) (simp_all add: valid_utf8_def)

lemma bool_map_json_fixed:
  assumes "fmpred (\<lambda>k b. valid_utf8 k) m"
  shows "written (bool_map_json m) = bool_map_json m"
    and "read_value (bool_map_json m) = Some (bool_map_json m)"
proof -
  have e: "valid_utf8 k \<and> (\<exists>b. v = JBool b)"
    if "(k, v) \<in> set (sorted_list_of_fmap (fmmap JBool m))" for k v
  proof -
    from that have "fmlookup (fmmap JBool m) k = Some v"
      by (simp add: sorted_list_of_fmap_member)
    then show ?thesis using assms by (auto simp: fmpred_iff)
  qed
  show "written (bool_map_json m) = bool_map_json m"
    unfolding bool_map_json_def go_map_def
  proof (rule written_object_fixed)
    fix k v assume "(k, v) \<in> set (sorted_list_of_fmap (fmmap JBool m))"
    from e[OF this] show "utf8_coerce k = k \<and> written v = v"
      by (auto simp: valid_utf8_def)
  qed
  show "read_value (bool_map_json m) = Some (bool_map_json m)"
    unfolding bool_map_json_def go_map_def
  proof (rule read_object_fixed)
    fix k v assume "(k, v) \<in> set (sorted_list_of_fmap (fmmap JBool m))"
    from e[OF this] show "utf8_coerce k = k \<and> read_value v = Some v"
      by (auto simp: valid_utf8_def)
  qed
qed

section \<open>Numbers as float64\<close>

lemma pow2_power_int: "pow2 e = power_int 2 e"
  by (simp add: pow2_def power_int_def inverse_eq_divide power_one_over)

lemma floor_log2_upper:
  assumes "0 < a"
  shows "a < pow2 (floor_log2 a + 1)"
proof -
  obtain p q where pq: "quotient_of a = (p, q)" by (cases "quotient_of a")
  have q: "0 < q" using pq by (rule quotient_of_denom_pos)
  have a: "a = of_int p / of_int q" using pq by (rule quotient_of_div)
  have p: "0 < p" using assms a q by (simp add: zero_less_divide_iff)
  have "p < 2 ^ nat (bitlen p)" using bitlen_bounds[OF p] by simp
  then have "(of_int p :: rat) < of_int (2 ^ nat (bitlen p))" by (simp only: of_int_less_iff)
  then have bp: "(of_int p :: rat) < power_int 2 (bitlen p)"
    by (simp add: power_int_def bitlen_nonneg)
  have bq1: "1 \<le> bitlen q" using q by (simp add: bitlen_alt_def)
  have "2 ^ nat (bitlen q - 1) \<le> q" using bitlen_bounds[OF q] by simp
  then have "(of_int (2 ^ nat (bitlen q - 1)) :: rat) \<le> of_int q" by (simp only: of_int_le_iff)
  then have bq: "(power_int 2 (bitlen q - 1) :: rat) \<le> of_int q"
    using bq1 by (simp add: power_int_def)
  have "a < power_int 2 (bitlen p) / power_int 2 (bitlen q - 1)"
    unfolding a using p bp bq by (intro frac_less) simp_all
  also have "\<dots> = power_int 2 (bitlen p - (bitlen q - 1))"
    by (rule power_int_diff [symmetric]) simp
  finally have u: "a < pow2 (bitlen p - bitlen q + 1)"
    by (simp add: pow2_power_int algebra_simps)
  show ?thesis
  proof (cases "pow2 (bitlen p - bitlen q) \<le> a")
    case True
    then show ?thesis using u by (simp add: floor_log2_def pq Let_def)
  next
    case False
    then show ?thesis by (simp add: floor_log2_def pq Let_def)
  qed
qed

text \<open>A number of absolute value \<open>2 ^ 1024\<close> or more is read as no float64.\<close>

lemma float64_out_of_range:
  assumes "2 ^ 1024 \<le> \<bar>x\<bar>"
  shows "float64 x = None"
proof -
  have pos: "0 < \<bar>x\<bar>" using assms by (rule less_le_trans[rotated]) simp
  have "power_int 2 1024 \<le> \<bar>x\<bar>" using assms by simp
  also have "\<bar>x\<bar> < power_int 2 (floor_log2 \<bar>x\<bar> + 1)"
    using floor_log2_upper[OF pos] by (simp add: pow2_power_int)
  finally have lt: "(power_int 2 1024 :: rat) < power_int 2 (floor_log2 \<bar>x\<bar> + 1)" .
  have "1024 \<le> floor_log2 \<bar>x\<bar>"
  proof (rule ccontr)
    assume "\<not> 1024 \<le> floor_log2 \<bar>x\<bar>"
    then have "floor_log2 \<bar>x\<bar> + 1 \<le> 1024" by simp
    then have "(power_int 2 (floor_log2 \<bar>x\<bar> + 1) :: rat) \<le> power_int 2 1024"
      by (rule power_int_increasing) simp
    from less_le_trans[OF lt this] show False by simp
  qed
  moreover have "x \<noteq> 0" using pos by simp
  ultimately show ?thesis by (simp add: float64_def Let_def)
qed

text \<open>
  Examples of what \<open>json.Unmarshal\<close> makes of a number: 42 is a float64; \<open>0.1\<close> is read as
  the float64 next to it, \<open>3602879701896397 / 2 ^ 55\<close>; the integer \<open>2 ^ 53 + 1\<close> is no
  float64 and is read as \<open>2 ^ 53\<close>; the number \<open>1e400\<close> is beyond the range of float64.
\<close>

lemma float64_exact_example: "float64 42 = Some 42"
  by code_simp

lemma float64_nearest_example: "float64 (1 / 10) = Some (3602879701896397 / 36028797018963968)"
  by code_simp

lemma float64_rounds_example: "float64 9007199254740993 = Some 9007199254740992"
  by code_simp

lemma out_of_range_example: "(2::rat) ^ 1024 \<le> \<bar>10 ^ 400\<bar>"
proof -
  have "(2::rat) ^ 1024 \<le> 2 ^ 1200" by (rule power_increasing) simp_all
  also have "\<dots> = (2 ^ 3) ^ 400" by (simp only: power_mult [symmetric]) simp
  also have "\<dots> \<le> 10 ^ 400" by (rule power_mono) simp_all
  finally show ?thesis by simp
qed

lemma float64_range_example: "float64 (10 ^ 400) = None"
  using out_of_range_example by (rule float64_out_of_range)

section \<open>The codec: encoding\<close>

lemma fmlookup_MarshalJSON_data:
  "fmlookup (MarshalJSON_data c) k =
     (if k |\<in>| fmdom (properties_of c) then fmlookup (properties_of c) k else known_data c k)"
  unfolding MarshalJSON_data_def Let_def
  by (cases "Properties c")
     (simp_all add: maps_Copy_def properties_of_def fmlookup_case_upd known_data_def)

lemma members_MarshalJSON:
  "members (MarshalJSON c) =
     map (\<lambda>(k, v). (utf8_coerce k, written v)) (sorted_list_of_fmap (MarshalJSON_data c))"
  by (simp add: MarshalJSON_def json_Marshal_map_def go_map_def)

lemma member_members: "member j k = map_of (rev (members j)) k"
  by (cases j) simp_all

text \<open>
  Claim C1 says that a key of the extension mapping that equals the name of a known
  attribute is bound, in the encoded object, to the known attribute's value.  The code
  copies the extension mapping into \<open>data\<close> last, so it is the other way round: here
  \<open>Email\<close> is \<open>a@example.com\<close> and the encoded object binds \<open>email\<close> to the
  extension mapping's \<open>b@example.com\<close>.
\<close>

theorem MarshalJSON_known_key_counterexample:
  "member (MarshalJSON (Contact_zero\<lparr>Email := ''a@example.com'',
       Properties := Some (fmap_of_list [(''email'', JString ''b@example.com'')])\<rparr>)) ''email''
     = Some (JString ''b@example.com'')
   \<and> member (MarshalJSON (Contact_zero\<lparr>Email := ''a@example.com'',
       Properties := Some (fmap_of_list [(''email'', JString ''b@example.com'')])\<rparr>)) ''email''
     \<noteq> Some (JString (Email (Contact_zero\<lparr>Email := ''a@example.com'',
       Properties := Some (fmap_of_list [(''email'', JString ''b@example.com'')])\<rparr>)))"
  by code_simp

text \<open>
  Claim C1, amended: every entry of the extension mapping, one under a known-attribute
  name included, is a member of the object that \<open>Contact.MarshalJSON\<close> produces, name and
  value as \<open>json.Marshal\<close> writes them; the object binds that name to that value unless
  another key of \<open>data\<close> is written as the same name, which cannot happen to an ASCII key
  and so to none of the known-attribute names.
\<close>

theorem MarshalJSON_extension_wins:
  assumes "fmlookup (properties_of c) k = Some v"
  shows "(utf8_coerce k, written v) \<in> set (members (MarshalJSON c))
    \<and> ((\<forall>k' \<in> fmdom' (MarshalJSON_data c). utf8_coerce k' = utf8_coerce k \<longrightarrow> k' = k) \<longrightarrow>
         member (MarshalJSON c) (utf8_coerce k) = Some (written v))
    \<and> ((\<forall>b \<in> set k. byte_in 0x00 0x7F b) \<longrightarrow> member (MarshalJSON c) k = Some (written v))"
proof -
  let ?f = "\<lambda>(k, v). (utf8_coerce k, written v)"
  let ?D = "MarshalJSON_data c"
  have d: "fmlookup ?D k = Some v"
    using assms by (simp add: fmlookup_MarshalJSON_data fmlookup_dom_iff)
  then have "(k, v) \<in> set (sorted_list_of_fmap ?D)"
    by (simp add: sorted_list_of_fmap_member)
  then have "?f (k, v) \<in> ?f ` set (sorted_list_of_fmap ?D)"
    by (rule imageI)
  then have m: "(utf8_coerce k, written v) \<in> set (members (MarshalJSON c))"
    by (simp add: members_MarshalJSON)
  have u: "member (MarshalJSON c) (utf8_coerce k) = Some (written v)"
    if inj: "\<forall>k' \<in> fmdom' ?D. utf8_coerce k' = utf8_coerce k \<longrightarrow> k' = k"
  proof -
    have "map_of (rev (members (MarshalJSON c))) (utf8_coerce k) = Some (written v)"
    proof (rule map_of_unique)
      show "(utf8_coerce k, written v) \<in> set (rev (members (MarshalJSON c)))"
        using m by simp
    next
      fix b' assume "(utf8_coerce k, b') \<in> set (rev (members (MarshalJSON c)))"
      then obtain k' v' where kv: "(k', v') \<in> set (sorted_list_of_fmap ?D)"
        and e: "utf8_coerce k' = utf8_coerce k" "b' = written v'"
        by (auto simp: members_MarshalJSON)
      from kv have l: "fmlookup ?D k' = Some v'"
        by (simp add: sorted_list_of_fmap_member)
      then have "k' \<in> fmdom' ?D" by (rule fmdom'I)
      with inj e(1) have "k' = k" by blast
      with l d have "v' = v" by simp
      then show "b' = written v" using e(2) by simp
    qed
    then show ?thesis by (simp add: member_members)
  qed
  have a: "member (MarshalJSON c) k = Some (written v)"
    if ascii: "\<forall>b \<in> set k. byte_in 0x00 0x7F b"
  proof -
    have k: "utf8_coerce k = k" using ascii by (rule utf8_coerce_ascii)
    have "\<forall>k' \<in> fmdom' ?D. utf8_coerce k' = utf8_coerce k \<longrightarrow> k' = k"
      using utf8_coerce_eq_ascii[OF ascii] k by auto
    from u[OF this] show ?thesis by (simp add: k)
  qed
  from m u a show ?thesis by blast
qed

theorem MarshalJSON_extension_wins_witness:
  "(''subscribed'', JString ''yes'') \<in> set (members (MarshalJSON (Contact_zero\<lparr>Subscribed := False,
       Properties := Some (fmap_of_list [(''subscribed'', JString ''yes'')])\<rparr>)))
   \<and> member (MarshalJSON (Contact_zero\<lparr>Subscribed := False,
       Properties := Some (fmap_of_list [(''subscribed'', JString ''yes'')])\<rparr>)) ''subscribed''
     = Some (JString ''yes'')"
proof -
  let ?c = "Contact_zero\<lparr>Subscribed := False,
       Properties := Some (fmap_of_list [(''subscribed'', JString ''yes'')])\<rparr>"
  have h: "fmlookup (properties_of ?c) ''subscribed'' = Some (JString ''yes'')"
    by (simp add: properties_of_def maps_Copy_def)
  have k: "utf8_coerce ''subscribed'' = ''subscribed''"
    by code_simp
  have v: "written (JString ''yes'') = JString ''yes''"
    by code_simp
  have a: "\<forall>b \<in> set ''subscribed''. byte_in 0x00 0x7F b"
    by (simp add: byte_in_def)
  have i: "\<forall>k' \<in> fmdom' (MarshalJSON_data ?c).
      utf8_coerce k' = utf8_coerce ''subscribed'' \<longrightarrow> k' = ''subscribed''"
    using utf8_coerce_eq_ascii[OF a] by (simp add: k)
  show ?thesis
    using MarshalJSON_extension_wins [OF h] a i unfolding k v by blast
qed

section \<open>The codec: decoding what was encoded\<close>

lemma optional_string_roundtrip:
  assumes "fmlookup (snd s) k = map_option JString x"
  shows "optional_string k a s =
           ((case x of Some v \<Rightarrow> a v (fst s) | None \<Rightarrow> fst s), fmdrop k (snd s))"
proof -
  obtain c vs where s: "s = (c, vs)" by (cases s)
  show ?thesis
  proof (cases x)
    case None
    then have "fmdrop k vs = vs"
      using assms s by (intro fmap_ext) simp
    then show ?thesis using None assms s by (simp add: optional_string_def)
  next
    case (Some v)
    then show ?thesis using assms s by (simp add: optional_string_def)
  qed
qed

lemma mailingLists_block_roundtrip:
  assumes "fmlookup (snd s) ''mailingLists'' = map_option bool_map_json x"
  shows "mailingLists_block s =
           (Ok (), (case x of Some m \<Rightarrow> (fst s)\<lparr>MailingLists := Some m\<rparr> | None \<Rightarrow> fst s),
            fmdrop ''mailingLists'' (snd s))"
proof -
  obtain c vs where s: "s = (c, vs)" by (cases s)
  show ?thesis
  proof (cases x)
    case None
    then have "fmdrop ''mailingLists'' vs = vs"
      using assms s by (intro fmap_ext) simp
    then show ?thesis using None assms s by (simp add: mailingLists_block_def)
  next
    case (Some m)
    then show ?thesis using assms s
      by (simp add: mailingLists_block_def bool_map_json_def go_map_def
          fmap_of_list_rev_sorted range_mailingLists_roundtrip)
  qed
qed

lemma UnmarshalJSON_optional_roundtrip:
  assumes look: "\<And>k. fmlookup values k =
      (if k |\<in>| fmdom props then fmlookup props k
       else if k \<in> {''id'', ''email'', ''subscribed''} then None else known_data c k)"
    and disj: "fmdom' props \<inter> known_keys = {}"
    and c0: "FirstName c0 = None" "LastName c0 = None" "Source c0 = None" "UserGroup c0 = None"
      "UserID c0 = None" "MailingLists c0 = None" "OptInStatus c0 = None"
  shows "UnmarshalJSON_optional c0 values =
    (Ok (), c0\<lparr>FirstName := FirstName c, LastName := LastName c, Source := Source c,
       UserGroup := UserGroup c, UserID := UserID c, MailingLists := MailingLists c,
       OptInStatus := OptInStatus c, Properties := Some props\<rparr>)"
proof -
  have nk: "\<And>k. k \<in> known_keys \<Longrightarrow> \<not> k |\<in>| fmdom props"
    using disj by (auto simp: fmdom'_alt_def)
  have L: "\<And>k. k \<in> known_keys \<Longrightarrow> fmlookup values k =
      (if k \<in> {''id'', ''email'', ''subscribed''} then None else known_data c k)"
    using look nk by simp
  define s1 where "s1 = optional_string ''firstName'' (\<lambda>v c. c\<lparr>FirstName := Some v\<rparr>) (c0, values)"
  have s1: "s1 = (c0\<lparr>FirstName := FirstName c\<rparr>, fmdrop ''firstName'' values)"
    unfolding s1_def
    by (subst optional_string_roundtrip[where x = "FirstName c"])
       (simp_all add: L known_keys_def known_data_def c0 split: option.splits)
  define s2 where "s2 = optional_string ''lastName'' (\<lambda>v c. c\<lparr>LastName := Some v\<rparr>) s1"
  have s2: "s2 = (c0\<lparr>FirstName := FirstName c, LastName := LastName c\<rparr>,
                  fmdrop ''lastName'' (fmdrop ''firstName'' values))"
    unfolding s2_def s1
    by (subst optional_string_roundtrip[where x = "LastName c"])
       (simp_all add: L known_keys_def known_data_def c0 split: option.splits)
  define s3 where "s3 = optional_string ''source'' (\<lambda>v c. c\<lparr>Source := Some v\<rparr>) s2"
  have s3: "s3 = (c0\<lparr>FirstName := FirstName c, LastName := LastName c, Source := Source c\<rparr>,
                  fmdrop ''source'' (fmdrop ''lastName'' (fmdrop ''firstName'' values)))"
    unfolding s3_def s2
    by (subst optional_string_roundtrip[where x = "Source c"])
       (simp_all add: L known_keys_def known_data_def c0 split: option.splits)
  define s4 where "s4 = optional_string ''userGroup'' (\<lambda>v c. c\<lparr>UserGroup := Some v\<rparr>) s3"
  have s4: "s4 = (c0\<lparr>FirstName := FirstName c, LastName := LastName c, Source := Source c,
                     UserGroup := UserGroup c\<rparr>,
                  fmdrop ''userGroup'' (fmdrop ''source'' (fmdrop ''lastName''
                    (fmdrop ''firstName'' values))))"
    unfolding s4_def s3
    by (subst optional_string_roundtrip[where x = "UserGroup c"])
       (simp_all add: L known_keys_def known_data_def c0 split: option.splits)
  define s5 where "s5 = optional_string ''userId'' (\<lambda>v c. c\<lparr>UserID := Some v\<rparr>) s4"
  have s5: "s5 = (c0\<lparr>FirstName := FirstName c, LastName := LastName c, Source := Source c,
                     UserGroup := UserGroup c, UserID := UserID c\<rparr>,
                  fmdrop ''userId'' (fmdrop ''userGroup'' (fmdrop ''source'' (fmdrop ''lastName''
                    (fmdrop ''firstName'' values)))))"
    unfolding s5_def s4
    by (subst optional_string_roundtrip[where x = "UserID c"])
       (simp_all add: L known_keys_def known_data_def c0 split: option.splits)
  define c6 where "c6 = c0\<lparr>FirstName := FirstName c, LastName := LastName c, Source := Source c,
                     UserGroup := UserGroup c, UserID := UserID c, MailingLists := MailingLists c\<rparr>"
  define v6 where "v6 = fmdrop ''mailingLists'' (fmdrop ''userId'' (fmdrop ''userGroup''
                    (fmdrop ''source'' (fmdrop ''lastName'' (fmdrop ''firstName'' values)))))"
  have s6: "mailingLists_block s5 = (Ok (), c6, v6)"
    unfolding s5 c6_def v6_def
    by (subst mailingLists_block_roundtrip[where x = "MailingLists c"])
       (simp_all add: L known_keys_def known_data_def c0 split: option.splits)
  have s7: "optional_string ''optInStatus'' (\<lambda>v c. c\<lparr>OptInStatus := Some v\<rparr>) (c6, v6) =
      (c6\<lparr>OptInStatus := OptInStatus c\<rparr>, fmdrop ''optInStatus'' v6)"
    unfolding c6_def v6_def
    by (subst optional_string_roundtrip[where x = "OptInStatus c"])
       (simp_all add: L known_keys_def known_data_def c0 split: option.splits)
  have rest: "fmdrop ''optInStatus'' v6 = props"
  proof (rule fmap_ext)
    fix k
    show "fmlookup (fmdrop ''optInStatus'' v6) k = fmlookup props k"
    proof (cases "k \<in> known_keys")
      case True
      then have "fmlookup props k = None" using nk by (simp add: fmdom_notD)
      moreover have "fmlookup (fmdrop ''optInStatus'' v6) k = None"
        using True L[OF True] by (auto simp: v6_def known_keys_def)
      ultimately show ?thesis by simp
    next
      case False
      then have "fmlookup (fmdrop ''optInStatus'' v6) k = fmlookup values k"
        by (simp add: v6_def known_keys_def)
      also have "\<dots> = fmlookup props k"
        using False look[of k] by (auto simp: known_keys_def known_data_def fmdom_notD)
      finally show ?thesis .
    qed
  qed
  show ?thesis
    unfolding UnmarshalJSON_optional_def Let_def
    using s6 s7 rest
    by (simp add: s1_def[symmetric] s2_def[symmetric] s3_def[symmetric] s4_def[symmetric]
          s5_def[symmetric] maps_Copy_def c6_def)
qed

text \<open>
  What \<open>MarshalJSON\<close> stores for the known attributes is read and written as it is when
  the strings of the contact are valid UTF-8.
\<close>

lemma known_data_known_keys: "known_data c k = Some v \<Longrightarrow> k \<in> known_keys"
  by (simp add: known_data_def known_keys_def split: if_splits)

lemma known_data_fixed:
  assumes "Contact_valid_utf8 c" and "known_data c k = Some v"
  shows "written v = v \<and> read_value v = Some v"
proof -
  have s: "written (JString x) = JString x \<and> read_value (JString x) = Some (JString x)"
    if "valid_utf8 x" for x
    using that by (simp add: valid_utf8_def)
  have o: "written (JString x) = JString x \<and> read_value (JString x) = Some (JString x)"
    if "valid_utf8_attribute (Some x)" for x
    using that by (simp add: valid_utf8_attribute_def valid_utf8_def)
  have m: "written (bool_map_json x) = bool_map_json x
      \<and> read_value (bool_map_json x) = Some (bool_map_json x)"
    if "MailingLists c = Some x" for x
    using assms(1) that bool_map_json_fixed[of x] by (simp add: Contact_valid_utf8_def)
  have v: "valid_utf8 (ID c)" "valid_utf8 (Email c)"
    "valid_utf8_attribute (FirstName c)" "valid_utf8_attribute (LastName c)"
    "valid_utf8_attribute (Source c)" "valid_utf8_attribute (UserGroup c)"
    "valid_utf8_attribute (UserID c)" "valid_utf8_attribute (OptInStatus c)"
    using assms(1) by (simp_all add: Contact_valid_utf8_def)
  consider x where "v = JString x" "valid_utf8 x"
    | x where "v = JString x" "valid_utf8_attribute (Some x)"
    | x where "v = bool_map_json x" "MailingLists c = Some x"
    | b where "v = JBool b"
    using assms(2) v unfolding known_data_def
    by (auto split: if_splits)
  then show ?thesis
    using s o m by cases auto
qed

lemma MarshalJSON_data_fixed:
  assumes "Contact_valid_utf8 c"
    and "fmpred (\<lambda>k v. valid_utf8 k \<and> json_safe_scalar v) (properties_of c)"
    and "fmlookup (MarshalJSON_data c) k = Some v"
  shows "utf8_coerce k = k \<and> written v = v \<and> read_value v = Some v"
proof (cases "k |\<in>| fmdom (properties_of c)")
  case True
  then have "fmlookup (properties_of c) k = Some v"
    using assms(3) by (simp add: fmlookup_MarshalJSON_data)
  then have "valid_utf8 k \<and> json_safe_scalar v"
    using assms(2) by (auto simp: fmpred_iff)
  then show ?thesis by (simp add: valid_utf8_def json_safe_scalar_fixed)
next
  case False
  then have d: "known_data c k = Some v"
    using assms(3) by (simp add: fmlookup_MarshalJSON_data)
  then have "utf8_coerce k = k"
    by (intro utf8_coerce_ascii known_keys_ascii known_data_known_keys)
  then show ?thesis using known_data_fixed[OF assms(1) d] by simp
qed

text \<open>
  Claim C3 has no condition on the strings of the contact.  \<open>json.Marshal\<close> writes a
  byte that is not valid UTF-8 as U+FFFD: a contact whose \<open>ID\<close> is the byte FF comes
  back with an \<open>ID\<close> of the three bytes EF BF BD.
\<close>

theorem Contact_roundtrip_counterexample:
  "UnmarshalJSON Contact_zero (Some (MarshalJSON (Contact_zero\<lparr>ID := [CHR 0xFF]\<rparr>))) =
     (Ok (), Contact_zero\<lparr>ID := [CHR 0xEF, CHR 0xBF, CHR 0xBD], Properties := Some fmempty\<rparr>)
   \<and> ID (snd (UnmarshalJSON Contact_zero (Some (MarshalJSON (Contact_zero\<lparr>ID := [CHR 0xFF]\<rparr>)))))
     \<noteq> ID (Contact_zero\<lparr>ID := [CHR 0xFF]\<rparr>)"
  by code_simp

text \<open>
  An extension value that is a number and no float64 does not come back either: the
  integer \<open>2 ^ 53 + 1\<close> comes back as \<open>2 ^ 53\<close>.
\<close>

lemma Contact_roundtrip_number_example:
  "UnmarshalJSON Contact_zero
     (Some (MarshalJSON (Contact_zero\<lparr>ID := ''1'', Email := ''a@example.com'',
        Properties := Some (fmap_of_list [(''n'', JNumber 9007199254740993)])\<rparr>))) =
   (Ok (), Contact_zero\<lparr>ID := ''1'', Email := ''a@example.com'',
        Properties := Some (fmap_of_list [(''n'', JNumber 9007199254740992)])\<rparr>)"
  by code_simp

text \<open>
  Claim C3, amended: for a contact whose strings (\<open>ID\<close>, \<open>Email\<close>, the optional string
  attributes, the names of its mailing lists) are valid UTF-8, whose extension keys are
  valid UTF-8 and disjoint from the names of the known attributes, and whose extension
  values are JSON-safe scalars (\<open>null\<close>, a boolean, a number that is a float64, a string
  that is valid UTF-8), decoding the bytes that \<open>Contact.MarshalJSON\<close> produced, into a
  fresh \<open>Contact\<close>, succeeds and gives the same known attributes and the same extension
  mapping (a nil mapping comes back as the empty one).
\<close>

theorem Contact_roundtrip:
  assumes "Contact_valid_utf8 c"
    and "fmdom' (properties_of c) \<inter> known_keys = {}"
    and "fmpred (\<lambda>k v. valid_utf8 k \<and> json_safe_scalar v) (properties_of c)"
  shows "UnmarshalJSON Contact_zero (Some (MarshalJSON c)) =
    (Ok (), c\<lparr>Properties := Some (properties_of c)\<rparr>)"
proof -
  define d where "d = MarshalJSON_data c"
  have fixed: "utf8_coerce k = k \<and> written v = v \<and> read_value v = Some v"
    if "(k, v) \<in> set (sorted_list_of_fmap d)" for k v
    using that MarshalJSON_data_fixed[OF assms(1,3), of k v]
    by (simp add: sorted_list_of_fmap_member d_def)
  have w: "MarshalJSON c = JObject (sorted_list_of_fmap d)"
    unfolding MarshalJSON_def json_Marshal_map_def go_map_def d_def[symmetric]
    by (rule written_object_fixed) (simp add: fixed)
  have r: "read_value (JObject (sorted_list_of_fmap d)) = Some (JObject (sorted_list_of_fmap d))"
    by (rule read_object_fixed) (simp add: fixed)
  have um: "json_Unmarshal_map (Some (MarshalJSON c)) = Inr d"
    unfolding w json_Unmarshal_map.simps r by (simp add: fmap_of_list_rev_sorted)
  have look: "\<And>k. fmlookup d k =
     (if k |\<in>| fmdom (properties_of c) then fmlookup (properties_of c) k else known_data c k)"
    by (simp add: d_def fmlookup_MarshalJSON_data)
  have nk: "\<And>k. k \<in> known_keys \<Longrightarrow> \<not> k |\<in>| fmdom (properties_of c)"
    using assms(2) by (auto simp: fmdom'_alt_def)
  have id: "assert_string (fmlookup d ''id'') = Some (ID c)"
    using nk[of "''id''"] by (simp add: look known_keys_def known_data_def)
  have email: "assert_string (fmlookup d ''email'') = Some (Email c)"
    using nk[of "''email''"] by (simp add: look known_keys_def known_data_def)
  have sub: "assert_bool (fmlookup d ''subscribed'') = Some (Subscribed c)"
    using nk[of "''subscribed''"] by (simp add: look known_keys_def known_data_def)
  have opt: "UnmarshalJSON_optional (Contact_zero\<lparr>ID := ID c, Email := Email c, Subscribed := Subscribed c\<rparr>)
       (fmdrop ''subscribed'' (fmdrop ''email'' (fmdrop ''id'' d))) =
    (Ok (), Contact_zero\<lparr>ID := ID c, Email := Email c, Subscribed := Subscribed c,
       FirstName := FirstName c, LastName := LastName c, Source := Source c,
       UserGroup := UserGroup c, UserID := UserID c, MailingLists := MailingLists c,
       OptInStatus := OptInStatus c, Properties := Some (properties_of c)\<rparr>)"
    using nk[of "''id''"] nk[of "''email''"] nk[of "''subscribed''"]
    by (intro UnmarshalJSON_optional_roundtrip[OF _ assms(2)])
       (auto simp: look known_data_def known_keys_def Contact_zero_def)
  show ?thesis
    unfolding UnmarshalJSON_def um
    by (simp add: id email sub opt Let_def)
qed

theorem Contact_roundtrip_witness:
  "UnmarshalJSON Contact_zero
     (Some (MarshalJSON (Contact_zero\<lparr>ID := ''123'', Email := ''test@example.com'',
        Subscribed := True, MailingLists := Some (fmap_of_list [(''list_123'', True)]),
        Properties := Some (fmap_of_list
          [(''favoriteColor'', JString ''blue''), (''age'', JNumber 42)])\<rparr>))) =
   (Ok (), Contact_zero\<lparr>ID := ''123'', Email := ''test@example.com'',
        Subscribed := True, MailingLists := Some (fmap_of_list [(''list_123'', True)]),
        Properties := Some (fmap_of_list
          [(''favoriteColor'', JString ''blue''), (''age'', JNumber 42)])\<rparr>)"
proof -
  let ?c = "Contact_zero\<lparr>ID := ''123'', Email := ''test@example.com'',
        Subscribed := True, MailingLists := Some (fmap_of_list [(''list_123'', True)]),
        Properties := Some (fmap_of_list
          [(''favoriteColor'', JString ''blue''), (''age'', JNumber 42)])\<rparr>"
  have u: "valid_utf8 ''123''" "valid_utf8 ''test@example.com''" "valid_utf8 ''list_123''"
    "valid_utf8 ''favoriteColor''" "valid_utf8 ''blue''" "valid_utf8 ''age''"
    by (simp_all add: valid_utf8_def utf8_coerce_ascii byte_in_def)
  have n: "float64 42 = Some 42"
    by code_simp
  have h1: "Contact_valid_utf8 ?c"
    by (auto simp add: Contact_valid_utf8_def Contact_zero_def valid_utf8_attribute_def u
          intro!: fmpred_upd)
  have h2: "fmdom' (properties_of ?c) \<inter> known_keys = {}"
    by (simp add: properties_of_def maps_Copy_def known_keys_def fmdom'_alt_def)
  have h3: "fmpred (\<lambda>k v. valid_utf8 k \<and> json_safe_scalar v) (properties_of ?c)"
    by (auto simp add: properties_of_def maps_Copy_def u n intro!: fmpred_upd)
  show ?thesis
    using Contact_roundtrip [OF h1 h2 h3]
    by (simp add: properties_of_def maps_Copy_def)
qed

section \<open>The codec: decoding arbitrary input\<close>

text \<open>
  Claim C5 says that a \<open>mailingLists\<close> object with an inner value that is not a boolean
  makes the decode return an error and never panic.  The loop converts with the
  unchecked assertion \<open>v.(bool)\<close>, while every other attribute of the function is read
  with the checked form: on the input below the call panics.
\<close>

theorem UnmarshalJSON_mailingLists_panics:
  "fst (UnmarshalJSON Contact_zero
     (Some (JObject [(''id'', JString ''1''), (''email'', JString ''a@example.com''),
        (''subscribed'', JBool True),
        (''mailingLists'', JObject [(''news'', JString ''yes'')])]))) = Panic"
  by code_simp

text \<open>
  Claim C6 says that no field of the receiver is assigned when a required field is
  missing.  The code assigns each required field as soon as it has checked it: on
  \<open>{"id": "123"}\<close> the call returns the error for \<open>email\<close> and has set \<open>ID\<close>.
\<close>

theorem UnmarshalJSON_required_counterexample:
  "UnmarshalJSON Contact_zero (Some (JObject [(''id'', JString ''123'')])) =
     (Err (errors_New ''missing or invalid 'email' field''), Contact_zero\<lparr>ID := ''123''\<rparr>)
   \<and> Contact_zero\<lparr>ID := ''123''\<rparr> \<noteq> Contact_zero"
proof
  show "UnmarshalJSON Contact_zero (Some (JObject [(''id'', JString ''123'')])) =
     (Err (errors_New ''missing or invalid 'email' field''), Contact_zero\<lparr>ID := ''123''\<rparr>)"
    by code_simp
  show "Contact_zero\<lparr>ID := ''123''\<rparr> \<noteq> Contact_zero"
    by (simp add: Contact_zero_def)
qed

text \<open>
  The required fields are looked at only after \<open>json.Unmarshal\<close> has decoded the input
  into the map \<open>values\<close>.  When that fails, the call returns the decoder's error and has
  assigned nothing; it fails on text that is not JSON, on a value that is neither an
  object nor \<open>null\<close>, and on an object that holds a number beyond the range of float64,
  whatever the object says about the required fields.
\<close>

lemma json_Unmarshal_map_Inr_iff:
  "json_Unmarshal_map data = Inr values \<longleftrightarrow>
     data = Some JNull \<and> values = fmempty
     \<or> (\<exists>kvs kvs'. data = Some (JObject kvs) \<and> read_value (JObject kvs) = Some (JObject kvs')
           \<and> values = fmap_of_list (rev kvs'))"
proof (cases data)
  case None
  then show ?thesis by simp
next
  case (Some j)
  then show ?thesis
    by (cases j) (auto split: option.splits)
qed

lemma UnmarshalJSON_decode_error:
  assumes "json_Unmarshal_map data = Inl err"
  shows "UnmarshalJSON c data = (Err err, c)"
  using assms by (simp add: UnmarshalJSON_def)

lemma those_map_None:
  "x \<in> set xs \<Longrightarrow> f x = None \<Longrightarrow> those (map f xs) = None"
  by (induction xs) (auto split: option.splits)

lemma json_Unmarshal_map_out_of_range:
  assumes "(k, JNumber x) \<in> set kvs" and "2 ^ 1024 \<le> \<bar>x\<bar>"
  shows "json_Unmarshal_map (Some (JObject kvs)) = Inl UnmarshalTypeError"
proof -
  have "(\<lambda>(k, v). map_option (Pair (utf8_coerce k)) (read_value v)) (k, JNumber x) = None"
    using float64_out_of_range[OF assms(2)] by simp
  with assms(1)
  have "those (map (\<lambda>(k, v). map_option (Pair (utf8_coerce k)) (read_value v)) kvs) = None"
    by (rule those_map_None)
  then show ?thesis by simp
qed

lemma UnmarshalJSON_number_out_of_range:
  assumes "(k, JNumber x) \<in> set kvs" and "2 ^ 1024 \<le> \<bar>x\<bar>"
  shows "UnmarshalJSON c (Some (JObject kvs)) = (Err UnmarshalTypeError, c)"
  using json_Unmarshal_map_out_of_range[OF assms] by (rule UnmarshalJSON_decode_error)

text \<open>On \<open>{"n": 1e400}\<close> the call returns the decoder's error, not the error for \<open>id\<close>.\<close>

lemma UnmarshalJSON_number_example:
  "UnmarshalJSON Contact_zero (Some (JObject [(''n'', JNumber (10 ^ 400))])) =
     (Err UnmarshalTypeError, Contact_zero)"
  by (rule UnmarshalJSON_number_out_of_range[where k = "''n''" and x = "10 ^ 400"])
     (simp_all only: list.set_intros out_of_range_example)

text \<open>
  Claim C6, amended: when \<open>json.Unmarshal\<close> decodes the input into the map (the input is
  \<open>null\<close> or a JSON object in which no number is beyond the range of float64) and a
  required field is absent or of the wrong type, the decode fails with the error that
  names the first such field in the order id, email, subscribed; the required fields
  before it have been assigned to the receiver, and no other field of the receiver is.
\<close>

theorem UnmarshalJSON_required:
  assumes "json_Unmarshal_map data = Inr values"
  shows "(assert_string (fmlookup values ''id'') = None \<longrightarrow>
            UnmarshalJSON c data = (Err (errors_New ''missing or invalid 'id' field''), c))
       \<and> (\<forall>i. assert_string (fmlookup values ''id'') = Some i
              \<and> assert_string (fmlookup values ''email'') = None \<longrightarrow>
            UnmarshalJSON c data =
              (Err (errors_New ''missing or invalid 'email' field''), c\<lparr>ID := i\<rparr>))
       \<and> (\<forall>i e. assert_string (fmlookup values ''id'') = Some i
              \<and> assert_string (fmlookup values ''email'') = Some e
              \<and> assert_bool (fmlookup values ''subscribed'') = None \<longrightarrow>
            UnmarshalJSON c data =
              (Err (errors_New ''missing or invalid 'subscribed' field''),
               c\<lparr>ID := i, Email := e\<rparr>))"
  using assms by (simp add: UnmarshalJSON_def)

theorem UnmarshalJSON_required_witness:
  "UnmarshalJSON Contact_zero (Some (JObject [(''email'', JString ''a@example.com'')])) =
     (Err (errors_New ''missing or invalid 'id' field''), Contact_zero)
 \<and> UnmarshalJSON Contact_zero
     (Some (JObject [(''id'', JString ''123''), (''email'', JNumber 7)])) =
     (Err (errors_New ''missing or invalid 'email' field''), Contact_zero\<lparr>ID := ''123''\<rparr>)
 \<and> UnmarshalJSON Contact_zero
     (Some (JObject [(''id'', JString ''123''), (''email'', JString ''a@example.com''),
        (''subscribed'', JString ''true'')])) =
     (Err (errors_New ''missing or invalid 'subscribed' field''),
      Contact_zero\<lparr>ID := ''123'', Email := ''a@example.com''\<rparr>)"
proof -
  have d1: "json_Unmarshal_map (Some (JObject [(''email'', JString ''a@example.com'')])) =
      Inr (fmap_of_list (rev [(''email'', JString ''a@example.com'')]))"
    by code_simp
  have d2: "json_Unmarshal_map (Some (JObject [(''id'', JString ''123''), (''email'', JNumber 7)])) =
      Inr (fmap_of_list (rev [(''id'', JString ''123''), (''email'', JNumber 7)]))"
    by code_simp
  have d3: "json_Unmarshal_map (Some (JObject [(''id'', JString ''123''),
        (''email'', JString ''a@example.com''), (''subscribed'', JString ''true'')])) =
      Inr (fmap_of_list (rev [(''id'', JString ''123''), (''email'', JString ''a@example.com''),
        (''subscribed'', JString ''true'')]))"
    by code_simp
  show ?thesis
    using UnmarshalJSON_required [OF d1, of Contact_zero]
      UnmarshalJSON_required [OF d2, of Contact_zero]
      UnmarshalJSON_required [OF d3, of Contact_zero]
    by simp
qed

lemma optional_attribute_Properties [simp]:
  "optional_attribute k (c\<lparr>Properties := x\<rparr>) = optional_attribute k c"
  by (simp add: optional_attribute_def)

lemma optional_attribute_required [simp]:
  "optional_attribute k (c\<lparr>ID := i, Email := e, Subscribed := b\<rparr>) = optional_attribute k c"
  by (simp add: optional_attribute_def)

lemma optional_attribute_assign:
  "k \<noteq> ''firstName'' \<Longrightarrow> optional_attribute k (c\<lparr>FirstName := x\<rparr>) = optional_attribute k c"
  "k \<noteq> ''lastName'' \<Longrightarrow> optional_attribute k (c\<lparr>LastName := x\<rparr>) = optional_attribute k c"
  "k \<noteq> ''source'' \<Longrightarrow> optional_attribute k (c\<lparr>Source := x\<rparr>) = optional_attribute k c"
  "k \<noteq> ''userGroup'' \<Longrightarrow> optional_attribute k (c\<lparr>UserGroup := x\<rparr>) = optional_attribute k c"
  "k \<noteq> ''userId'' \<Longrightarrow> optional_attribute k (c\<lparr>UserID := x\<rparr>) = optional_attribute k c"
  "k \<noteq> ''optInStatus'' \<Longrightarrow> optional_attribute k (c\<lparr>OptInStatus := x\<rparr>) = optional_attribute k c"
  "optional_attribute k (c\<lparr>MailingLists := y\<rparr>) = optional_attribute k c"
  by (simp_all add: optional_attribute_def)

lemma optional_string_keeps_value:
  assumes "fmlookup (snd s) k = Some v" and "assert_string (Some v) = None"
  shows "fmlookup (snd (optional_string k' a s)) k = Some v"
proof -
  obtain c vs where s: "s = (c, vs)" by (cases s)
  show ?thesis
  proof (cases "k' = k")
    case True
    then show ?thesis using assms s by (simp add: optional_string_def)
  next
    case False
    then show ?thesis using assms s
      by (cases "assert_string (fmlookup vs k')") (simp_all add: optional_string_def)
  qed
qed

lemma optional_string_keeps_attribute:
  assumes "fmlookup (snd s) k = Some v" and "assert_string (Some v) = None"
    and "\<And>x c. k' \<noteq> k \<Longrightarrow> optional_attribute k (a x c) = optional_attribute k c"
  shows "optional_attribute k (fst (optional_string k' a s)) = optional_attribute k (fst s)"
proof -
  obtain c vs where s: "s = (c, vs)" by (cases s)
  show ?thesis
  proof (cases "k' = k")
    case True
    then show ?thesis using assms(1,2) s by (simp add: optional_string_def)
  next
    case False
    then show ?thesis using assms(3) s
      by (cases "assert_string (fmlookup vs k')") (simp_all add: optional_string_def)
  qed
qed

lemma mailingLists_block_keeps:
  assumes "mailingLists_block s = (Ok u, c', values')" and "k \<noteq> ''mailingLists''"
  shows "fmlookup values' k = fmlookup (snd s) k"
    and "optional_attribute k c' = optional_attribute k (fst s)"
proof -
  obtain c vs where s: "s = (c, vs)" by (cases s)
  have "fmlookup values' k = fmlookup vs k \<and> optional_attribute k c' = optional_attribute k c"
  proof (cases "assert_map (fmlookup vs ''mailingLists'')")
    case None
    then show ?thesis using assms s by (simp add: mailingLists_block_def)
  next
    case (Some ml)
    obtain r m where rm: "range_mailingLists (sorted_list_of_fmap ml) fmempty = (r, m)"
      by (cases "range_mailingLists (sorted_list_of_fmap ml) fmempty")
    show ?thesis
      using assms s Some rm
      by (cases r) (auto simp add: mailingLists_block_def optional_attribute_assign)
  qed
  then show "fmlookup values' k = fmlookup (snd s) k"
    and "optional_attribute k c' = optional_attribute k (fst s)"
    using s by simp_all
qed

lemma UnmarshalJSON_optional_keeps:
  assumes res: "UnmarshalJSON_optional c0 values = (Ok (), c)"
    and k: "k \<in> optional_string_keys"
    and v: "fmlookup values k = Some v" "assert_string (Some v) = None"
  shows "fmlookup (properties_of c) k = Some v \<and> optional_attribute k c = optional_attribute k c0"
proof -
  define s1 where "s1 = optional_string ''firstName'' (\<lambda>v c. c\<lparr>FirstName := Some v\<rparr>) (c0, values)"
  define s2 where "s2 = optional_string ''lastName'' (\<lambda>v c. c\<lparr>LastName := Some v\<rparr>) s1"
  define s3 where "s3 = optional_string ''source'' (\<lambda>v c. c\<lparr>Source := Some v\<rparr>) s2"
  define s4 where "s4 = optional_string ''userGroup'' (\<lambda>v c. c\<lparr>UserGroup := Some v\<rparr>) s3"
  define s5 where "s5 = optional_string ''userId'' (\<lambda>v c. c\<lparr>UserID := Some v\<rparr>) s4"
  have i0: "fmlookup (snd (c0, values)) k = Some v" using v by simp
  have i1: "fmlookup (snd s1) k = Some v"
    unfolding s1_def by (rule optional_string_keeps_value[OF i0 v(2)])
  have a1: "optional_attribute k (fst s1) = optional_attribute k c0"
    unfolding s1_def
    by (subst optional_string_keeps_attribute[OF i0 v(2)]) (simp_all add: optional_attribute_assign)
  have i2: "fmlookup (snd s2) k = Some v"
    unfolding s2_def by (rule optional_string_keeps_value[OF i1 v(2)])
  have a2: "optional_attribute k (fst s2) = optional_attribute k c0"
    unfolding s2_def
    by (subst optional_string_keeps_attribute[OF i1 v(2)]) (simp_all add: optional_attribute_assign a1)
  have i3: "fmlookup (snd s3) k = Some v"
    unfolding s3_def by (rule optional_string_keeps_value[OF i2 v(2)])
  have a3: "optional_attribute k (fst s3) = optional_attribute k c0"
    unfolding s3_def
    by (subst optional_string_keeps_attribute[OF i2 v(2)]) (simp_all add: optional_attribute_assign a2)
  have i4: "fmlookup (snd s4) k = Some v"
    unfolding s4_def by (rule optional_string_keeps_value[OF i3 v(2)])
  have a4: "optional_attribute k (fst s4) = optional_attribute k c0"
    unfolding s4_def
    by (subst optional_string_keeps_attribute[OF i3 v(2)]) (simp_all add: optional_attribute_assign a3)
  have i5: "fmlookup (snd s5) k = Some v"
    unfolding s5_def by (rule optional_string_keeps_value[OF i4 v(2)])
  have a5: "optional_attribute k (fst s5) = optional_attribute k c0"
    unfolding s5_def
    by (subst optional_string_keeps_attribute[OF i4 v(2)]) (simp_all add: optional_attribute_assign a4)
  have km: "k \<noteq> ''mailingLists''" using k by (auto simp: optional_string_keys_def)
  obtain r c6 v6 where b: "mailingLists_block s5 = (r, c6, v6)"
    by (cases "mailingLists_block s5") auto
  define s7 where "s7 = optional_string ''optInStatus'' (\<lambda>v c. c\<lparr>OptInStatus := Some v\<rparr>) (c6, v6)"
  from res have r: "r = Ok ()" and c: "c = (fst s7)\<lparr>Properties := Some (maps_Copy fmempty (Some (snd s7)))\<rparr>"
    unfolding UnmarshalJSON_optional_def Let_def
    by (auto simp: s1_def[symmetric] s2_def[symmetric] s3_def[symmetric] s4_def[symmetric]
          s5_def[symmetric] b s7_def[symmetric] split: result.splits prod.splits)
  have i6: "fmlookup (snd (c6, v6)) k = Some v"
    using mailingLists_block_keeps(1)[OF b[unfolded r] km] i5 by simp
  have a6: "optional_attribute k c6 = optional_attribute k c0"
    using mailingLists_block_keeps(2)[OF b[unfolded r] km] a5 by simp
  have i7: "fmlookup (snd s7) k = Some v"
    unfolding s7_def by (rule optional_string_keeps_value[OF i6 v(2)])
  have a7: "optional_attribute k (fst s7) = optional_attribute k c0"
    unfolding s7_def
    by (subst optional_string_keeps_attribute[OF i6 v(2)]) (simp_all add: optional_attribute_assign a6)
  show ?thesis
    using i7 a7 by (simp add: c properties_of_def maps_Copy_def)
qed

text \<open>
  Claim C10: when the decode succeeds and the input binds the name of an optional string
  attribute (firstName, lastName, source, userGroup, userId, optInStatus) to a value that
  is not a string, the attribute of the receiver is left as it was and the pair is in
  the resulting extension mapping.
\<close>

theorem UnmarshalJSON_optional_wrong_type:
  assumes "UnmarshalJSON c0 data = (Ok (), c)"
    and "json_Unmarshal_map data = Inr values"
    and "k \<in> optional_string_keys"
    and "fmlookup values k = Some v"
    and "assert_string (Some v) = None"
  shows "fmlookup (properties_of c) k = Some v \<and> optional_attribute k c = optional_attribute k c0"
proof -
  obtain i where i: "assert_string (fmlookup values ''id'') = Some i"
    using assms(1,2) by (cases "assert_string (fmlookup values ''id'')") (simp_all add: UnmarshalJSON_def)
  obtain e where e: "assert_string (fmlookup values ''email'') = Some e"
    using assms(1,2) i
    by (cases "assert_string (fmlookup values ''email'')") (simp_all add: UnmarshalJSON_def)
  obtain b where b: "assert_bool (fmlookup values ''subscribed'') = Some b"
    using assms(1,2) i e
    by (cases "assert_bool (fmlookup values ''subscribed'')") (simp_all add: UnmarshalJSON_def)
  have opt: "UnmarshalJSON_optional (c0\<lparr>ID := i, Email := e, Subscribed := b\<rparr>)
            (fmdrop ''subscribed'' (fmdrop ''email'' (fmdrop ''id'' values))) = (Ok (), c)"
    using assms(1,2) i e b by (simp add: UnmarshalJSON_def)
  have k: "k \<noteq> ''id''" "k \<noteq> ''email''" "k \<noteq> ''subscribed''"
    using assms(3) by (auto simp: optional_string_keys_def)
  then have "fmlookup (fmdrop ''subscribed'' (fmdrop ''email'' (fmdrop ''id'' values))) k = Some v"
    using assms(4) by simp
  from UnmarshalJSON_optional_keeps[OF opt assms(3) this assms(5)]
  show ?thesis by simp
qed

theorem UnmarshalJSON_optional_wrong_type_witness:
  "fmlookup (properties_of (snd (UnmarshalJSON Contact_zero (Some (JObject
      [(''id'', JString ''1''), (''email'', JString ''a@example.com''),
       (''subscribed'', JBool True), (''firstName'', JNumber 42)]))))) ''firstName''
     = Some (JNumber 42)
   \<and> FirstName (snd (UnmarshalJSON Contact_zero (Some (JObject
      [(''id'', JString ''1''), (''email'', JString ''a@example.com''),
       (''subscribed'', JBool True), (''firstName'', JNumber 42)])))) = None"
proof -
  let ?doc = "Some (JObject
      [(''id'', JString ''1''), (''email'', JString ''a@example.com''),
       (''subscribed'', JBool True), (''firstName'', JNumber 42)])"
  have "fst (UnmarshalJSON Contact_zero ?doc) = Ok ()"
    by code_simp
  then have h1: "UnmarshalJSON Contact_zero ?doc = (Ok (), snd (UnmarshalJSON Contact_zero ?doc))"
    by (simp add: prod_eq_iff)
  have h2: "json_Unmarshal_map ?doc = Inr (fmap_of_list (rev
      [(''id'', JString ''1''), (''email'', JString ''a@example.com''),
       (''subscribed'', JBool True), (''firstName'', JNumber 42)]))"
    by code_simp
  have h3: "''firstName'' \<in> optional_string_keys"
    by (simp add: optional_string_keys_def)
  have h4: "fmlookup (fmap_of_list (rev
      [(''id'', JString ''1''), (''email'', JString ''a@example.com''),
       (''subscribed'', JBool True), (''firstName'', JNumber 42)])) ''firstName'' = Some (JNumber 42)"
    by simp
  have h5: "assert_string (Some (JNumber 42)) = None"
    by simp
  show ?thesis
    using UnmarshalJSON_optional_wrong_type [OF h1 h2 h3 h4 h5]
    by (simp add: optional_attribute_def Contact_zero_def)
qed

section \<open>Sending: the error of a failure status\<close>

text \<open>
  Claim C2 says that a body of neither shape, non-JSON text included, comes back
  verbatim as the error message.  The code returns the raw body only after the second
  decoding has succeeded; when that decoding fails, it returns its own error wrapped
  around the decoder's.  For the plain text \<open>internal error\<close> and status 500:
\<close>

theorem sendRequest_raw_body_counterexample:
  "fst (sendRequest json_Unmarshal_MessageResponse
     \<lparr> Client.apiURL = defaultURL,
       Client.httpClient = replay \<lparr> StatusCode = 500,
          Response.Body = Inr \<lparr> content = ''internal error'', document = None \<rparr> \<rparr>,
       Client.requestInterceptors = [] \<rparr> example_request)
   = Err (fmt_Errorf ''failed to unmarshal error message'' SyntaxError)
 \<and> fst (sendRequest json_Unmarshal_MessageResponse
     \<lparr> Client.apiURL = defaultURL,
       Client.httpClient = replay \<lparr> StatusCode = 500,
          Response.Body = Inr \<lparr> content = ''internal error'', document = None \<rparr> \<rparr>,
       Client.requestInterceptors = [] \<rparr> example_request)
   \<noteq> Err (errors_New ''internal error'')"
  by (simp add: sendRequest_def replay_def sendRequest_failure_def sendRequest_message_def
        json_Unmarshal_ptr_def)

lemma sendRequest_status_failure:
  assumes "Client.httpClient c req = Inr resp" and "Response.Body resp = Inr b"
    and "StatusCode resp \<ge> 300"
  shows "sendRequest unmarshal c req = (sendRequest_failure b, [Do req])"
  using assms by (simp add: sendRequest_def)

lemma sendRequest_message_eq:
  assumes "document b \<noteq> Some JNull"
  shows "sendRequest_message b = Err (message_or_raw b)"
proof (cases "document b")
  case None
  then show ?thesis
    by (simp add: sendRequest_message_def message_or_raw_def decodes_MessageResponse_def
          json_Unmarshal_ptr_def)
next
  case (Some j)
  show ?thesis
  proof (cases j)
    case (JObject kvs)
    obtain r saved where m: "MessageResponse_members kvs MessageResponse_zero None = (r, saved)"
      by (cases "MessageResponse_members kvs MessageResponse_zero None")
    show ?thesis using Some JObject m
      by (cases saved)
         (simp_all add: sendRequest_message_def message_or_raw_def decodes_MessageResponse_def
            json_Unmarshal_ptr_def)
  qed (use Some assms in \<open>simp_all add: sendRequest_message_def message_or_raw_def
          decodes_MessageResponse_def json_Unmarshal_ptr_def\<close>)
qed

lemma sendRequest_failure_eq:
  assumes "document b \<noteq> Some JNull"
  shows "sendRequest_failure b = Err (normalized_error b)"
proof (cases "document b")
  case None
  then show ?thesis
    by (simp add: sendRequest_failure_def normalized_error_def decodes_errorResponse_def
          json_Unmarshal_ptr_def sendRequest_message_eq[OF assms])
next
  case (Some j)
  show ?thesis
  proof (cases j)
    case (JObject kvs)
    obtain r saved where m: "errorResponse_members kvs errorResponse_zero None = (r, saved)"
      by (cases "errorResponse_members kvs errorResponse_zero None")
    show ?thesis using Some JObject m
      by (cases saved)
         (simp_all add: sendRequest_failure_def normalized_error_def decodes_errorResponse_def
            json_Unmarshal_ptr_def sendRequest_message_eq[OF assms])
  qed (use Some assms in \<open>simp_all add: sendRequest_failure_def normalized_error_def
          decodes_errorResponse_def json_Unmarshal_ptr_def sendRequest_message_eq[OF assms]\<close>)
qed

text \<open>
  Claim C2, amended: for a response with status 300 or more whose body is not the
  JSON literal \<open>null\<close>, the call fails with \<open>normalized_error\<close>: the \<open>error\<close> string when
  the body decodes as \<open>{"error": s}\<close> with \<open>s\<close> non-empty; otherwise the \<open>message\<close>
  string when the body decodes as \<open>{"success": b, "message": m}\<close> with \<open>m\<close> non-empty;
  otherwise the raw body text when the body decodes so with an empty message; and, when
  the body does not decode so, the error "failed to unmarshal error message" around the
  decoder's error.  The last case is that of text that is not JSON and of a JSON value
  that is not an object.
\<close>

theorem sendRequest_error_normalization:
  assumes "Client.httpClient c req = Inr resp" and "Response.Body resp = Inr b"
    and "StatusCode resp \<ge> 300" and "document b \<noteq> Some JNull"
  shows "fst (sendRequest unmarshal c req) = Err (normalized_error b)
    \<and> (document b = None \<longrightarrow>
         normalized_error b = fmt_Errorf ''failed to unmarshal error message'' SyntaxError)
    \<and> ((\<exists>j. document b = Some j \<and> (\<forall>kvs. j \<noteq> JObject kvs)) \<longrightarrow>
         normalized_error b = fmt_Errorf ''failed to unmarshal error message'' UnmarshalTypeError)"
proof (intro conjI impI)
  show "fst (sendRequest unmarshal c req) = Err (normalized_error b)"
    by (simp add: sendRequest_status_failure[OF assms(1,2,3)] sendRequest_failure_eq[OF assms(4)])
next
  assume "document b = None"
  then show "normalized_error b = fmt_Errorf ''failed to unmarshal error message'' SyntaxError"
    by (simp add: normalized_error_def message_or_raw_def decodes_errorResponse_def
          decodes_MessageResponse_def)
next
  assume "\<exists>j. document b = Some j \<and> (\<forall>kvs. j \<noteq> JObject kvs)"
  then obtain j where j: "document b = Some j" "\<forall>kvs. j \<noteq> JObject kvs" by blast
  then show "normalized_error b = fmt_Errorf ''failed to unmarshal error message'' UnmarshalTypeError"
    by (cases j)
       (simp_all add: normalized_error_def message_or_raw_def decodes_errorResponse_def
          decodes_MessageResponse_def)
qed

theorem sendRequest_error_normalization_witness:
  "fst (sendRequest json_Unmarshal_MessageResponse
     \<lparr> Client.apiURL = defaultURL,
       Client.httpClient = replay \<lparr> StatusCode = 400,
          Response.Body = Inr \<lparr> content = ''{\"error\":\"bad request\"}'',
            document = Some (JObject [(''error'', JString ''bad request'')]) \<rparr> \<rparr>,
       Client.requestInterceptors = [] \<rparr> example_request)
   = Err (errors_New ''bad request'')
 \<and> fst (sendRequest json_Unmarshal_MessageResponse
     \<lparr> Client.apiURL = defaultURL,
       Client.httpClient = replay \<lparr> StatusCode = 400,
          Response.Body = Inr \<lparr> content = ''{\"success\":false,\"message\":\"oops\"}'',
            document = Some (JObject [(''success'', JBool False), (''message'', JString ''oops'')]) \<rparr> \<rparr>,
       Client.requestInterceptors = [] \<rparr> example_request)
   = Err (errors_New ''oops'')
 \<and> fst (sendRequest json_Unmarshal_MessageResponse
     \<lparr> Client.apiURL = defaultURL,
       Client.httpClient = replay \<lparr> StatusCode = 404,
          Response.Body = Inr \<lparr> content = ''{\"success\":false}'',
            document = Some (JObject [(''success'', JBool False)]) \<rparr> \<rparr>,
       Client.requestInterceptors = [] \<rparr> example_request)
   = Err (errors_New ''{\"success\":false}'')
 \<and> fst (sendRequest json_Unmarshal_MessageResponse
     \<lparr> Client.apiURL = defaultURL,
       Client.httpClient = replay \<lparr> StatusCode = 500,
          Response.Body = Inr \<lparr> content = ''\"internal error\"'',
            document = Some (JString ''internal error'') \<rparr> \<rparr>,
       Client.requestInterceptors = [] \<rparr> example_request)
   = Err (fmt_Errorf ''failed to unmarshal error message'' UnmarshalTypeError)"
proof -
  let ?b1 = "\<lparr> content = ''{\"error\":\"bad request\"}'',
            document = Some (JObject [(''error'', JString ''bad request'')]) \<rparr>"
  let ?b2 = "\<lparr> content = ''{\"success\":false,\"message\":\"oops\"}'',
            document = Some (JObject [(''success'', JBool False), (''message'', JString ''oops'')]) \<rparr>"
  let ?b3 = "\<lparr> content = ''{\"success\":false}'',
            document = Some (JObject [(''success'', JBool False)]) \<rparr>"
  let ?b4 = "\<lparr> content = ''\"internal error\"'', document = Some (JString ''internal error'') \<rparr>"
  have n1: "normalized_error ?b1 = errors_New ''bad request''"
    by code_simp
  have n2: "normalized_error ?b2 = errors_New ''oops''"
    by code_simp
  have n3: "normalized_error ?b3 = errors_New ''{\"success\":false}''"
    by code_simp
  have n4: "normalized_error ?b4 = fmt_Errorf ''failed to unmarshal error message'' UnmarshalTypeError"
    by code_simp
  have t: "fst (sendRequest json_Unmarshal_MessageResponse
     \<lparr> Client.apiURL = defaultURL,
       Client.httpClient = replay \<lparr> StatusCode = s, Response.Body = Inr b \<rparr>,
       Client.requestInterceptors = [] \<rparr> example_request) = Err (normalized_error b)"
    if "s \<ge> 300" and "document b \<noteq> Some JNull" for s b
    using sendRequest_error_normalization [of
      "\<lparr> Client.apiURL = defaultURL,
        Client.httpClient = replay \<lparr> StatusCode = s, Response.Body = Inr b \<rparr>,
        Client.requestInterceptors = [] \<rparr>" example_request
      "\<lparr> StatusCode = s, Response.Body = Inr b \<rparr>" b json_Unmarshal_MessageResponse] that
    by (simp add: replay_def)
  show ?thesis
    using t [of 400 ?b1] t [of 400 ?b2] t [of 404 ?b3] t [of 500 ?b4]
    by (simp only: n1 n2 n3 n4) simp
qed

section \<open>Validation before a request is built\<close>

lemma validMethod_GET_POST [simp]: "validMethod ''GET''" "validMethod ''POST''"
  by (simp_all add: validMethod_def)






section \<open>A lookup that finds nothing\<close>

lemma sendRequest_events: "snd (sendRequest unmarshal c req) = [Do req]"
  by (auto simp: sendRequest_def split: sum.splits result.splits)

lemma newRequestWithBody_no_Do:
  "Do req \<notin> set (snd (newRequestWithBody lib marshal c method path message))"
  by (auto simp: newRequestWithBody_def Let_def split: list.splits sum.splits option.splits)

lemma newGetRequestWithQueryParams_no_Do:
  "Do req \<notin> set (snd (newGetRequestWithQueryParams lib c path params))"
proof -
  obtain r evs where b: "newRequestWithBody lib (\<lambda>m. Inr (MarshalJSON m)) c ''GET'' path None = (r, evs)"
    by (cases "newRequestWithBody lib (\<lambda>m. Inr (MarshalJSON m)) c ''GET'' path None")
  then have "Do req \<notin> set evs"
    using newRequestWithBody_no_Do[of req lib "\<lambda>m. Inr (MarshalJSON m)" c "''GET''" path None]
    by simp
  then show ?thesis using b
    by (cases r; cases params) (simp_all add: newGetRequestWithQueryParams_def)
qed

text \<open>
  Claim C8: when \<open>FindContact\<close> has sent its request, the transport has answered it
  with a status below 300 and a body that decodes to the empty list of contacts, the
  call returns \<open>ErrContactNotFound\<close>, and so no contact.
\<close>

theorem FindContact_not_found:
  assumes "Do req \<in> set (snd (FindContact lib c ci))"
    and "Client.httpClient c req = Inr resp"
    and "Response.Body resp = Inr b"
    and "StatusCode resp < 300"
    and "json_Unmarshal_Contacts (document b) = Ok []"
  shows "fst (FindContact lib c ci) = Err ErrContactNotFound"
proof -
  define params where "params = Some (let params = fmempty;
            params = (case ContactIdentifier.Email ci of
                        Some v \<Rightarrow> Values_Add ''email'' v params | None \<Rightarrow> params);
            params = (case ContactIdentifier.UserID ci of
                        Some v \<Rightarrow> Values_Add ''userId'' v params | None \<Rightarrow> params)
        in params)"
  obtain r evs where g: "newGetRequestWithQueryParams lib c ''/contacts/find'' params = (r, evs)"
    by (cases "newGetRequestWithQueryParams lib c ''/contacts/find'' params")
  have nd: "Do req \<notin> set evs"
    using newGetRequestWithQueryParams_no_Do[of req lib c "''/contacts/find''" params] g by simp
  have v1: "\<not> (ContactIdentifier.Email ci = None \<and> ContactIdentifier.UserID ci = None)"
  proof
    assume "ContactIdentifier.Email ci = None \<and> ContactIdentifier.UserID ci = None"
    then have "snd (FindContact lib c ci) = []" by (simp add: FindContact_def)
    then show False using assms(1) by simp
  qed
  have v2: "\<not> (ContactIdentifier.Email ci \<noteq> None \<and> ContactIdentifier.UserID ci \<noteq> None)"
  proof
    assume "ContactIdentifier.Email ci \<noteq> None \<and> ContactIdentifier.UserID ci \<noteq> None"
    then have "snd (FindContact lib c ci) = []" by (simp add: FindContact_def)
    then show False using assms(1) by simp
  qed
  note v = v1 v2
  show ?thesis
  proof (cases r)
    case (Ok req')
    obtain r' evs' where s: "sendRequest json_Unmarshal_Contacts c req' = (r', evs')"
      by (cases "sendRequest json_Unmarshal_Contacts c req'")
    then have evs': "evs' = [Do req']"
      using sendRequest_events[of json_Unmarshal_Contacts c req'] by simp
    have "snd (FindContact lib c ci) = evs @ evs'"
      using v g Ok s by (cases r') (auto simp: FindContact_def Let_def params_def)
    then have "req' = req" using assms(1) nd evs' by auto
    then have "r' = Ok []"
      using s assms(2-5) by (simp add: sendRequest_def)
    then show ?thesis
      using v g Ok s by (auto simp: FindContact_def Let_def params_def)
  next
    case (Err e)
    then have "snd (FindContact lib c ci) = evs"
      using v g by (auto simp: FindContact_def Let_def params_def)
    then show ?thesis using assms(1) nd by simp
  next
    case Panic
    then have "snd (FindContact lib c ci) = evs"
      using v g by (auto simp: FindContact_def Let_def params_def)
    then show ?thesis using assms(1) nd by simp
  qed
qed

theorem FindContact_not_found_witness:
  "fst (FindContact example_stdlib
     \<lparr> Client.apiURL = defaultURL, Client.httpClient = replay \<lparr> StatusCode = 200,
          Response.Body = Inr \<lparr> content = ''[]'', document = Some (JArray []) \<rparr> \<rparr>,
       Client.requestInterceptors = [] \<rparr>
     \<lparr> ContactIdentifier.Email = Some ''a@example.com'', ContactIdentifier.UserID = None \<rparr>)
   = Err ErrContactNotFound"
proof -
  let ?resp = "\<lparr> StatusCode = 200,
          Response.Body = Inr \<lparr> content = ''[]'', document = Some (JArray []) \<rparr> \<rparr>"
  let ?c = "\<lparr> Client.apiURL = defaultURL, Client.httpClient = replay ?resp,
       Client.requestInterceptors = [] \<rparr>"
  let ?ci = "\<lparr> ContactIdentifier.Email = Some ''a@example.com'', ContactIdentifier.UserID = None \<rparr>"
  let ?req = "\<lparr> Method = ''GET'', URL = ''https://app.loops.so/api/v1/contacts/find'',
        RawQuery = ''email=a%40example.com'', Header = fmempty, Request.Body = None \<rparr>"
  have e: "Values_Encode (Values_Add ''email'' ''a@example.com'' fmempty) = ''email=a%40example.com''"
    by code_simp
  have h1: "Do ?req \<in> set (snd (FindContact example_stdlib ?c ?ci))"
    by (simp add: FindContact_def newGetRequestWithQueryParams_def newRequestWithBody_def
          http_NewRequestWithContext_def example_stdlib_def defaultURL_def sendRequest_def
          replay_def e)
  have h2: "Client.httpClient ?c ?req = Inr ?resp" by (simp add: replay_def)
  have h3: "Response.Body ?resp = Inr \<lparr> content = ''[]'', document = Some (JArray []) \<rparr>" by simp
  have h4: "StatusCode ?resp < 300" by simp
  have h5: "json_Unmarshal_Contacts (document \<lparr> content = ''[]'', document = Some (JArray []) \<rparr>) = Ok []"
    by simp
  show ?thesis
    using FindContact_not_found [OF h1 h2 h3 h4 h5] .
qed

section \<open>The bounds of perPage\<close>



section \<open>The order of the interceptors\<close>






end
